theory Spec2Isabelle
  imports Main "HOL-Library.Word"
begin

section \<open>Data model of contrib/amcheck/verify_gin.c\<close>

text \<open>
  The verifier of GIN indexes walks the entry tree from its root and, at every leaf entry,
  the posting tree or the posting list of that entry. The file holds two revisions of the
  verifier, one after the other; the model follows the first one (lines 1 to 618), which
  compares keys with the comparator of the index and walks the posting trees.

  The C types are kept: block numbers are 32-bit, offset numbers 16-bit, a \<open>Datum\<close> is
  a 64-bit machine word, a null category is a \<open>signed char\<close>, the depth of a stack
  frame and the result of the comparator are C \<open>int\<close>s (modelled as \<open>int\<close>: a depth
  starts at 0 and grows by one per tree level). An offset that runs over the slots of one
  page is a \<open>nat\<close>: a page holds far fewer than \<open>2^16\<close> slots, so the 16-bit counter
  of the loops does not wrap.
\<close>

type_synonym BlockNumber = "32 word"
type_synonym OffsetNumber = "16 word"
type_synonym XLogRecPtr = "64 word"
type_synonym Datum = "64 word"
type_synonym GinNullCategory = "8 word"

definition InvalidBlockNumber :: BlockNumber where
  "InvalidBlockNumber = 0xFFFFFFFF"

definition InvalidXLogRecPtr :: XLogRecPtr where
  "InvalidXLogRecPtr = 0"

definition InvalidOffsetNumber :: nat where
  "InvalidOffsetNumber = 0"

definition FirstOffsetNumber :: nat where
  "FirstOffsetNumber = 1"

record ItemPointerData =
  ip_blkid :: BlockNumber
  ip_posid :: OffsetNumber

text \<open>
  The posting area of a leaf entry tuple (\<open>GinGetPosting\<close>): either a compressed posting
  list (its bytes, \<open>GinItupIsCompressed\<close> holds) or an array of item pointers.
\<close>

datatype Posting = Compressed "8 word list" | Uncompressed "ItemPointerData list"

text \<open>
  An index tuple, as far as the verifier looks at it. The accessor macros of
  \<open>access/gin_private.h\<close> are not part of the sources at hand, so the value of each
  macro on a tuple is a field: \<open>t_size\<close> is \<open>IndexTupleSize\<close>, \<open>t_attnum\<close> is
  \<open>gintuple_get_attrnum\<close>, \<open>t_key\<close> and \<open>t_category\<close> are what
  \<open>gintuple_get_key\<close> returns, \<open>t_is_posting_tree\<close> is \<open>GinIsPostingTree\<close>,
  \<open>t_posting_tree\<close> is \<open>GinGetPostingTree\<close>, \<open>t_nposting\<close> is \<open>GinGetNPosting\<close>
  (an unsigned 16-bit count) and \<open>t_posting\<close> is the posting area.
\<close>

record IndexTuple =
  t_tid :: ItemPointerData
  t_size :: nat
  t_attnum :: OffsetNumber
  t_key :: Datum
  t_category :: GinNullCategory
  t_is_posting_tree :: bool
  t_posting_tree :: BlockNumber
  t_nposting :: "16 word"
  t_posting :: Posting

text \<open>A line pointer of an entry page with the tuple it addresses.\<close>

record ItemSlot =
  lp_len :: nat
  lp_tuple :: IndexTuple

record PostingItem =
  child_blkno :: BlockNumber
  key :: ItemPointerData

text \<open>
  A page, as the walkers look at it: the flags of its opaque area, its right link, its
  LSN, and its slots \<open>1 .. PageGetMaxOffsetNumber\<close>, over which both walkers run. The
  slots of an entry page are line pointers with their index tuples
  (\<open>PageGetItemIdCareful\<close>, \<open>PageGetItem\<close>); the slots of a data page, where
  \<open>GinPageIsData\<close> holds, are the posting items \<open>GinDataPageGetPostingItem\<close>
  returns.
\<close>

datatype PageBody = EntryItems "ItemSlot list" | DataItems "PostingItem list"

record Page =
  pg_deleted :: bool
  pg_leaf :: bool
  pg_rightlink :: BlockNumber
  pg_lsn :: XLogRecPtr
  pg_body :: PageBody

definition GinPageIsDeleted :: "Page \<Rightarrow> bool" where
  "GinPageIsDeleted page = pg_deleted page"

definition GinPageIsLeaf :: "Page \<Rightarrow> bool" where
  "GinPageIsLeaf page = pg_leaf page"

definition GinPageIsData :: "Page \<Rightarrow> bool" where
  "GinPageIsData page = (case pg_body page of DataItems _ \<Rightarrow> True | EntryItems _ \<Rightarrow> False)"

definition PageGetMaxOffsetNumber :: "Page \<Rightarrow> nat" where
  "PageGetMaxOffsetNumber page =
     (case pg_body page of EntryItems ts \<Rightarrow> length ts | DataItems ps \<Rightarrow> length ps)"

subsection \<open>Errors and messages\<close>

text \<open>
  Every \<open>ereport(ERROR, ...)\<close> and \<open>elog(ERROR, ...)\<close> of the file is a constructor, with
  the values its message prints. Four more come from what the file calls: \<open>Io_error\<close>
  from \<open>ReadBufferExtended\<close>, \<open>Interrupted\<close> from \<open>CHECK_FOR_INTERRUPTS\<close>,
  \<open>Page_check_failed\<close> from \<open>gincheckpage\<close> and \<open>Bad_line_pointer\<close> from
  \<open>PageGetItemIdCareful\<close>. \<open>Undefined_read i n\<close> is a read at index \<open>i\<close> of an
  array of \<open>n\<close> elements with \<open>i\<close> outside \<open>0 ..< n\<close>, which C leaves undefined;
  \<open>Null_dereference\<close> is a read through a null pointer; \<open>Assert_not_data\<close> is the
  failed \<open>Assert\<close> of the posting-tree walker, in a build that checks assertions.
\<close>

datatype error =
    Io_error BlockNumber
  | Interrupted
  | Page_check_failed BlockNumber
  | Deleted_internal_page BlockNumber
  | Deleted_page_with_tuples BlockNumber
  | Too_many_tuples BlockNumber
  | Bad_line_pointer BlockNumber nat
  | Unexpected_leaf BlockNumber
  | Inconsistent_tuple_sizes BlockNumber nat
  | Wrong_tuple_order BlockNumber nat
  | Inconsistent_records BlockNumber nat
  | Items_mismatch int int
  | Invalid_heap_pointer BlockNumber
  | Undefined_read int nat
  | Null_dereference
  | Assert_not_data BlockNumber

text \<open>The errors the file itself raises with \<open>ERRCODE_INDEX_CORRUPTED\<close>.\<close>

fun index_corrupted :: "error \<Rightarrow> bool" where
  "index_corrupted (Deleted_internal_page _) = True"
| "index_corrupted (Deleted_page_with_tuples _) = True"
| "index_corrupted (Too_many_tuples _) = True"
| "index_corrupted (Unexpected_leaf _) = True"
| "index_corrupted (Inconsistent_tuple_sizes _ _) = True"
| "index_corrupted (Wrong_tuple_order _ _) = True"
| "index_corrupted (Inconsistent_records _ _) = True"
| "index_corrupted (Invalid_heap_pointer _) = True"
| "index_corrupted _ = False"

datatype message =
    Info_split_detected
  | Info_validating_posting_tree BlockNumber nat
  | Info_validating_posting_list BlockNumber nat
  | Notice_no_parent_tuple BlockNumber BlockNumber

subsection \<open>What the file takes from the rest of the server\<close>

text \<open>
  Functions and constants the file calls and does not define are parameters:
  the comparator of the index (\<open>ginCompareEntries\<close>, called with the attribute number,
  the two keys and the two categories in the order the file passes them), the decoder of
  compressed posting lists, the generic page check, the validity of an offset number,
  \<open>MAXALIGN\<close> and the maximal number of index tuples of a page.
\<close>

record Env =
  ginCompareEntries ::
    "OffsetNumber \<Rightarrow> Datum \<Rightarrow> Datum \<Rightarrow> GinNullCategory \<Rightarrow> GinNullCategory \<Rightarrow> int"
  ginPostingListDecode :: "8 word list \<Rightarrow> ItemPointerData list"
  gincheckpage :: "Page \<Rightarrow> bool"
  OffsetNumberIsValid :: "OffsetNumber \<Rightarrow> bool"
  MAXALIGN :: "nat \<Rightarrow> nat"
  MaxIndexTuplesPerPage :: nat

text \<open>
  The index is read while other backends change it: the page a read returns depends on
  the block and on the moment, counted in reads done so far. \<open>rel_page t b = None\<close> is
  a block that cannot be read; \<open>rel_interrupt t\<close> is a pending cancel request.
\<close>

record Relation =
  rel_page :: "nat \<Rightarrow> BlockNumber \<Rightarrow> Page option"
  rel_interrupt :: "nat \<Rightarrow> bool"

record WState =
  reads :: nat
  messages :: "message list"

definition ReadBuffer :: "Relation \<Rightarrow> BlockNumber \<Rightarrow> WState \<Rightarrow> error + (Page \<times> WState)" where
  "ReadBuffer rel blkno st =
     (case rel_page rel (reads st) blkno of
        None \<Rightarrow> Inl (Io_error blkno)
      | Some page \<Rightarrow> Inr (page, st\<lparr>reads := Suc (reads st)\<rparr>))"

definition elog :: "message \<Rightarrow> WState \<Rightarrow> WState" where
  "elog m st = st\<lparr>messages := messages st @ [m]\<rparr>"

section \<open>Page sanity check\<close>

definition check_index_page :: "Env \<Rightarrow> Page \<Rightarrow> BlockNumber \<Rightarrow> error + unit" where
  "check_index_page env page blockNo =
     (if \<not> gincheckpage env page then Inl (Page_check_failed blockNo)
      else if GinPageIsDeleted page then
        (if \<not> GinPageIsLeaf page then Inl (Deleted_internal_page blockNo)
         else if PageGetMaxOffsetNumber page > InvalidOffsetNumber
           then Inl (Deleted_page_with_tuples blockNo)
         else Inr ())
      else if PageGetMaxOffsetNumber page > MaxIndexTuplesPerPage env
        then Inl (Too_many_tuples blockNo)
      else Inr ())"

section \<open>Reading the item pointers of a leaf entry tuple\<close>

text \<open>
  \<open>ginReadTupleWithoutState\<close> returns the array and, through \<open>*nitems\<close>, the count
  of the tuple header. The uncompressed branch copies \<open>nipd\<close> cells out of the posting
  area; copying more cells than the area holds reads past the tuple.
\<close>

definition ginReadTupleWithoutState ::
  "Env \<Rightarrow> IndexTuple \<Rightarrow> error + (ItemPointerData list \<times> int)" where
  "ginReadTupleWithoutState env itup =
     (let nipd = uint (t_nposting itup) in
      case t_posting itup of
        Compressed bytes \<Rightarrow>
          if nipd > 0 then
            (let ipd = ginPostingListDecode env bytes;
                 ndecoded = int (length ipd)
             in if nipd \<noteq> ndecoded then Inl (Items_mismatch nipd ndecoded)
                else Inr (ipd, nipd))
          else Inr ([], nipd)
      | Uncompressed cells \<Rightarrow>
          if nat nipd \<le> length cells then Inr (take (nat nipd) cells, nipd)
          else Inl (Undefined_read (nipd - 1) (length cells)))"

section \<open>Careful access to the slots of a page\<close>

text \<open>
  \<open>PageGetItemIdCareful\<close> followed by \<open>PageGetItem\<close>: the line pointer at an offset and
  its tuple. An offset outside \<open>1 .. PageGetMaxOffsetNumber\<close>, or a page whose slots are
  not index tuples, has no line pointer to return.
\<close>

definition PageGetItemCareful :: "BlockNumber \<Rightarrow> Page \<Rightarrow> nat \<Rightarrow> error + ItemSlot" where
  "PageGetItemCareful block page offset =
     (case pg_body page of
        EntryItems ts \<Rightarrow>
          if FirstOffsetNumber \<le> offset \<and> offset \<le> length ts then Inr (ts ! (offset - 1))
          else Inl (Bad_line_pointer block offset)
      | DataItems _ \<Rightarrow> Inl (Bad_line_pointer block offset))"

definition GinDataPageGetPostingItems :: "Page \<Rightarrow> PostingItem list" where
  "GinDataPageGetPostingItems page =
     (case pg_body page of DataItems ps \<Rightarrow> ps | EntryItems _ \<Rightarrow> [])"

text \<open>A read of \<open>xs[i]\<close> with a C \<open>int\<close> index.\<close>

definition array_read :: "'a list \<Rightarrow> int \<Rightarrow> error + 'a" where
  "array_read xs i =
     (if 0 \<le> i \<and> i < int (length xs) then Inr (xs ! nat i)
      else Inl (Undefined_read i (length xs)))"

section \<open>The posting-tree walker\<close>

record GinPostingTreeScanItem =
  pt_depth :: int
  pt_parenttup :: "PostingItem option"
  pt_parentblk :: BlockNumber
  pt_blkno :: BlockNumber

text \<open>
  The \<open>for\<close> loop over the posting items of the page of frame \<open>stack\<close>; \<open>nxt\<close> is
  \<open>stack->next\<close>, where every new frame is linked in.
\<close>

fun posting_items_loop ::
  "GinPostingTreeScanItem \<Rightarrow> Page \<Rightarrow> PostingItem list \<Rightarrow> GinPostingTreeScanItem list
     \<Rightarrow> GinPostingTreeScanItem list" where
  "posting_items_loop stack page [] nxt = nxt"
| "posting_items_loop stack page (posting_item # rest) nxt =
     (if ip_blkid (key posting_item) = 0 \<or> ip_posid (key posting_item) = 0
        then posting_items_loop stack page rest nxt
      else if \<not> GinPageIsLeaf page
        then posting_items_loop stack page rest
               (\<lparr>pt_depth = pt_depth stack + 1,
                 pt_parenttup = Some posting_item,
                 pt_parentblk = pt_blkno stack,
                 pt_blkno = child_blkno posting_item\<rparr> # nxt)
      else posting_items_loop stack page rest nxt)"

text \<open>
  One turn of the \<open>while (stack)\<close> loop: the frame \<open>stack\<close> is visited and dropped,
  the result is the leaf depth and the stack to go on with.
\<close>

definition posting_tree_step ::
  "Relation \<Rightarrow> int \<Rightarrow> GinPostingTreeScanItem \<Rightarrow> GinPostingTreeScanItem list \<Rightarrow> WState
     \<Rightarrow> error + (int \<times> GinPostingTreeScanItem list \<times> WState)" where
  "posting_tree_step rel leafdepth stack nxt st =
     (if rel_interrupt rel (reads st) then Inl Interrupted
      else case ReadBuffer rel (pt_blkno stack) st of
        Inl e \<Rightarrow> Inl e
      | Inr (page, st1) \<Rightarrow>
          if \<not> GinPageIsData page then Inl (Assert_not_data (pt_blkno stack))
          else
            (case (if GinPageIsLeaf page then
                     (if leafdepth = -1 then Inr (pt_depth stack)
                      else if pt_depth stack \<noteq> leafdepth
                        then Inl (Unexpected_leaf (pt_blkno stack))
                      else Inr leafdepth)
                   else Inr leafdepth) of
               Inl e \<Rightarrow> Inl e
             | Inr leafdepth1 \<Rightarrow>
                 Inr (leafdepth1,
                      posting_items_loop stack page (GinDataPageGetPostingItems page) nxt,
                      st1)))"

text \<open>
  The loop itself. A corrupted tree may hold a cycle, so the loop need not end: it runs
  on fuel, one unit per visited page, and \<open>None\<close> is running out of it.
\<close>

fun posting_tree_walk ::
  "Relation \<Rightarrow> nat \<Rightarrow> int \<Rightarrow> GinPostingTreeScanItem list \<Rightarrow> WState
     \<Rightarrow> (error + WState) option" where
  "posting_tree_walk rel fuel leafdepth [] st = Some (Inr st)"
| "posting_tree_walk rel 0 leafdepth (stack # nxt) st = None"
| "posting_tree_walk rel (Suc fuel) leafdepth (stack # nxt) st =
     (case posting_tree_step rel leafdepth stack nxt st of
        Inl e \<Rightarrow> Some (Inl e)
      | Inr (leafdepth1, stack1, st1) \<Rightarrow> posting_tree_walk rel fuel leafdepth1 stack1 st1)"

definition gin_check_posting_tree_parent_keys_consistency ::
  "Relation \<Rightarrow> nat \<Rightarrow> BlockNumber \<Rightarrow> WState \<Rightarrow> (error + WState) option" where
  "gin_check_posting_tree_parent_keys_consistency rel fuel posting_tree_root st =
     posting_tree_walk rel fuel (-1)
       [\<lparr>pt_depth = 0, pt_parenttup = None, pt_parentblk = InvalidBlockNumber,
         pt_blkno = posting_tree_root\<rparr>] st"

section \<open>Validation of a leaf entry page\<close>

fun validate_leaf_loop ::
  "Env \<Rightarrow> Relation \<Rightarrow> nat \<Rightarrow> Page \<Rightarrow> BlockNumber \<Rightarrow> nat list \<Rightarrow> WState
     \<Rightarrow> (error + WState) option" where
  "validate_leaf_loop env rel fuel page block [] st = Some (Inr st)"
| "validate_leaf_loop env rel fuel page block (i # offsets) st =
     (case PageGetItemCareful block page i of
        Inl e \<Rightarrow> Some (Inl e)
      | Inr iid \<Rightarrow>
          (let idxtuple = lp_tuple iid in
           if t_is_posting_tree idxtuple then
             (case gin_check_posting_tree_parent_keys_consistency rel fuel
                     (t_posting_tree idxtuple)
                     (elog (Info_validating_posting_tree block i) st) of
                None \<Rightarrow> None
              | Some (Inl e) \<Rightarrow> Some (Inl e)
              | Some (Inr st1) \<Rightarrow> validate_leaf_loop env rel fuel page block offsets st1)
           else
             (let st1 = elog (Info_validating_posting_list block i) st in
              case ginReadTupleWithoutState env idxtuple of
                Inl e \<Rightarrow> Some (Inl e)
              | Inr (ipd, nipd) \<Rightarrow>
                  (case array_read ipd (nipd - 1) of
                     Inl e \<Rightarrow> Some (Inl e)
                   | Inr last_item \<Rightarrow>
                       if \<not> OffsetNumberIsValid env (ip_posid last_item)
                         then Some (Inl (Invalid_heap_pointer block))
                       else validate_leaf_loop env rel fuel page block offsets st1))))"

definition validate_leaf ::
  "Env \<Rightarrow> Relation \<Rightarrow> nat \<Rightarrow> Page \<Rightarrow> BlockNumber \<Rightarrow> WState \<Rightarrow> (error + WState) option" where
  "validate_leaf env rel fuel page block st =
     validate_leaf_loop env rel fuel page block
       [FirstOffsetNumber ..< Suc (PageGetMaxOffsetNumber page)] st"

section \<open>The entry-tree walker\<close>

record GinScanItem =
  depth :: int
  parenttup :: "IndexTuple option"
  parentblk :: BlockNumber
  parentlsn :: XLogRecPtr
  blkno :: BlockNumber

subsection \<open>Re-finding a downlink in the parent page\<close>

fun refind_loop ::
  "BlockNumber \<Rightarrow> Page \<Rightarrow> BlockNumber \<Rightarrow> nat list \<Rightarrow> error + IndexTuple option" where
  "refind_loop parentblkno parentpage childblkno [] = Inr None"
| "refind_loop parentblkno parentpage childblkno (off # offsets) =
     (case PageGetItemCareful parentblkno parentpage off of
        Inl e \<Rightarrow> Inl e
      | Inr p_iid \<Rightarrow>
          (let itup = lp_tuple p_iid in
           if ip_blkid (t_tid itup) = childblkno then Inr (Some itup)
           else refind_loop parentblkno parentpage childblkno offsets))"

definition gin_refind_parent ::
  "Relation \<Rightarrow> BlockNumber \<Rightarrow> BlockNumber \<Rightarrow> WState
     \<Rightarrow> error + (IndexTuple option \<times> WState)" where
  "gin_refind_parent rel parentblkno childblkno st =
     (case ReadBuffer rel parentblkno st of
        Inl e \<Rightarrow> Inl e
      | Inr (parentpage, st1) \<Rightarrow>
          if GinPageIsLeaf parentpage then Inr (None, st1)
          else
            (case refind_loop parentblkno parentpage childblkno
                    [FirstOffsetNumber ..< Suc (PageGetMaxOffsetNumber parentpage)] of
               Inl e \<Rightarrow> Inl e
             | Inr result \<Rightarrow> Inr (result, st1)))"

subsection \<open>The right sibling of a page that was split\<close>

text \<open>
  The block after \<open>check_index_page\<close>: with a parent tuple, the last tuple of the page is
  compared with it, and the right sibling is linked in after the current frame.
\<close>

definition split_adjust ::
  "Env \<Rightarrow> GinScanItem \<Rightarrow> Page \<Rightarrow> GinScanItem list \<Rightarrow> WState
     \<Rightarrow> error + (GinScanItem list \<times> WState)" where
  "split_adjust env stack page nxt st =
     (case parenttup stack of
        None \<Rightarrow> Inr (nxt, st)
      | Some ptup \<Rightarrow>
          (let parent_key = t_key ptup;
               parent_key_category = t_category ptup;
               maxoff = PageGetMaxOffsetNumber page
           in case PageGetItemCareful (blkno stack) page maxoff of
                Inl e \<Rightarrow> Inl e
              | Inr iid \<Rightarrow>
                  (let idxtuple = lp_tuple iid;
                       attnum = t_attnum idxtuple;
                       page_max_key = t_key idxtuple;
                       page_max_key_category = t_category idxtuple
                   in if pg_rightlink page \<noteq> InvalidBlockNumber \<and>
                         ginCompareEntries env attnum page_max_key parent_key
                           page_max_key_category parent_key_category \<le> 0
                      then Inr (\<lparr>depth = depth stack,
                                 parenttup = Some ptup,
                                 parentblk = parentblk stack,
                                 parentlsn = parentlsn stack,
                                 blkno = pg_rightlink page\<rparr> # nxt,
                                elog Info_split_detected st)
                      else Inr (nxt, st))))"

subsection \<open>The checks on one tuple\<close>

text \<open>The order of a tuple and its left neighbour on the page.\<close>

definition check_tuple_order ::
  "Env \<Rightarrow> BlockNumber \<Rightarrow> nat \<Rightarrow> IndexTuple option \<Rightarrow> IndexTuple \<Rightarrow> error + unit" where
  "check_tuple_order env block i prev_tuple idxtuple =
     (if i \<noteq> FirstOffsetNumber then
        (case prev_tuple of
           None \<Rightarrow> Inl Null_dereference
         | Some prev \<Rightarrow>
             if ginCompareEntries env (t_attnum idxtuple) (t_key prev) (t_key idxtuple)
                  (t_category prev) (t_category idxtuple) \<le> 0
             then Inl (Wrong_tuple_order block i)
             else Inr ())
      else Inr ())"

text \<open>
  The last tuple of the page against the downlink of the parent. The frame is returned
  with the parent tuple the check leaves in it.
\<close>

definition check_parent_key ::
  "Env \<Rightarrow> Relation \<Rightarrow> GinScanItem \<Rightarrow> nat \<Rightarrow> nat \<Rightarrow> IndexTuple \<Rightarrow> WState
     \<Rightarrow> error + (GinScanItem \<times> WState)" where
  "check_parent_key env rel stack i maxoff idxtuple st =
     (case parenttup stack of
        None \<Rightarrow> Inr (stack, st)
      | Some ptup \<Rightarrow>
          if i = maxoff then
            (if ginCompareEntries env (t_attnum idxtuple) (t_key idxtuple) (t_key ptup)
                  (t_category idxtuple) (t_category ptup) \<le> 0
             then
               (case gin_refind_parent rel (parentblk stack) (blkno stack) st of
                  Inl e \<Rightarrow> Inl e
                | Inr (None, st1) \<Rightarrow>
                    Inr (stack\<lparr>parenttup := None\<rparr>,
                         elog (Notice_no_parent_tuple (blkno stack) (parentblk stack)) st1)
                | Inr (Some ptup1, st1) \<Rightarrow>
                    if ginCompareEntries env (t_attnum idxtuple) (t_key idxtuple) (t_key ptup1)
                         (t_category idxtuple) (t_category ptup1) \<le> 0
                    then Inl (Inconsistent_records (blkno stack) i)
                    else Inr (stack\<lparr>parenttup := Some ptup1\<rparr>, st1))
             else Inr (stack, st))
          else Inr (stack, st))"

subsection \<open>The loop over the tuples of a page\<close>

fun entry_items_loop ::
  "Env \<Rightarrow> Relation \<Rightarrow> nat \<Rightarrow> Page \<Rightarrow> XLogRecPtr \<Rightarrow> nat \<Rightarrow> nat list \<Rightarrow> IndexTuple option
     \<Rightarrow> GinScanItem \<Rightarrow> GinScanItem list \<Rightarrow> WState
     \<Rightarrow> (error + (GinScanItem \<times> GinScanItem list \<times> WState)) option" where
  "entry_items_loop env rel fuel page lsn maxoff [] prev_tuple stack nxt st =
     Some (Inr (stack, nxt, st))"
| "entry_items_loop env rel fuel page lsn maxoff (i # offsets) prev_tuple stack nxt st =
     (case PageGetItemCareful (blkno stack) page i of
        Inl e \<Rightarrow> Some (Inl e)
      | Inr iid \<Rightarrow>
          (let idxtuple = lp_tuple iid in
           if MAXALIGN env (lp_len iid) \<noteq> MAXALIGN env (t_size idxtuple)
             then Some (Inl (Inconsistent_tuple_sizes (blkno stack) i))
           else
             (case check_tuple_order env (blkno stack) i prev_tuple idxtuple of
                Inl e \<Rightarrow> Some (Inl e)
              | Inr _ \<Rightarrow>
                  (case check_parent_key env rel stack i maxoff idxtuple st of
                     Inl e \<Rightarrow> Some (Inl e)
                   | Inr (stack1, st1) \<Rightarrow>
                       if \<not> GinPageIsLeaf page then
                         entry_items_loop env rel fuel page lsn maxoff offsets (Some idxtuple)
                           stack1
                           (\<lparr>depth = depth stack1 + 1,
                             parenttup = Some idxtuple,
                             parentblk = blkno stack1,
                             parentlsn = lsn,
                             blkno = ip_blkid (t_tid idxtuple)\<rparr> # nxt)
                           st1
                       else
                         (case validate_leaf env rel fuel page (blkno stack1) st1 of
                            None \<Rightarrow> None
                          | Some (Inl e) \<Rightarrow> Some (Inl e)
                          | Some (Inr st2) \<Rightarrow>
                              entry_items_loop env rel fuel page lsn maxoff offsets
                                (Some idxtuple) stack1 nxt st2)))))"

subsection \<open>One page, and the whole walk\<close>

definition entry_step ::
  "Env \<Rightarrow> Relation \<Rightarrow> nat \<Rightarrow> int \<Rightarrow> GinScanItem \<Rightarrow> GinScanItem list \<Rightarrow> WState
     \<Rightarrow> (error + (int \<times> GinScanItem list \<times> WState)) option" where
  "entry_step env rel fuel leafdepth stack nxt st =
     (if rel_interrupt rel (reads st) then Some (Inl Interrupted)
      else case ReadBuffer rel (blkno stack) st of
        Inl e \<Rightarrow> Some (Inl e)
      | Inr (page, st1) \<Rightarrow>
          (let lsn = pg_lsn page in
           case check_index_page env page (blkno stack) of
             Inl e \<Rightarrow> Some (Inl e)
           | Inr _ \<Rightarrow>
               (case split_adjust env stack page nxt st1 of
                  Inl e \<Rightarrow> Some (Inl e)
                | Inr (nxt1, st2) \<Rightarrow>
                    (case (if GinPageIsLeaf page then
                             (if leafdepth = -1 then Inr (depth stack)
                              else if depth stack \<noteq> leafdepth
                                then Inl (Unexpected_leaf (blkno stack))
                              else Inr leafdepth)
                           else Inr leafdepth) of
                       Inl e \<Rightarrow> Some (Inl e)
                     | Inr leafdepth1 \<Rightarrow>
                         (let maxoff = PageGetMaxOffsetNumber page in
                          case entry_items_loop env rel fuel page lsn maxoff
                                 [FirstOffsetNumber ..< Suc maxoff] None stack nxt1 st2 of
                            None \<Rightarrow> None
                          | Some (Inl e) \<Rightarrow> Some (Inl e)
                          | Some (Inr (stack1, nxt2, st3)) \<Rightarrow>
                              Some (Inr (leafdepth1, nxt2, st3)))))))"

text \<open>
  The \<open>while (stack)\<close> loop, on fuel as the posting-tree loop is; the posting trees met
  on the way get the same amount of fuel each.
\<close>

fun entry_walk ::
  "Env \<Rightarrow> Relation \<Rightarrow> nat \<Rightarrow> nat \<Rightarrow> int \<Rightarrow> GinScanItem list \<Rightarrow> WState
     \<Rightarrow> (error + WState) option" where
  "entry_walk env rel pfuel fuel leafdepth [] st = Some (Inr st)"
| "entry_walk env rel pfuel 0 leafdepth (stack # nxt) st = None"
| "entry_walk env rel pfuel (Suc fuel) leafdepth (stack # nxt) st =
     (case entry_step env rel pfuel leafdepth stack nxt st of
        None \<Rightarrow> None
      | Some (Inl e) \<Rightarrow> Some (Inl e)
      | Some (Inr (leafdepth1, stack1, st1)) \<Rightarrow>
          entry_walk env rel pfuel fuel leafdepth1 stack1 st1)"

text \<open>
  The entry point. \<open>GIN_ROOT_BLKNO\<close>, the block of the root of the entry tree, is a
  constant of \<open>access/gin_private.h\<close> and a parameter here.
\<close>

definition gin_check_parent_keys_consistency ::
  "Env \<Rightarrow> Relation \<Rightarrow> BlockNumber \<Rightarrow> nat \<Rightarrow> WState \<Rightarrow> (error + WState) option" where
  "gin_check_parent_keys_consistency env rel GIN_ROOT_BLKNO fuel st =
     entry_walk env rel fuel fuel (-1)
       [\<lparr>depth = 0, parenttup = None, parentblk = InvalidBlockNumber,
         parentlsn = InvalidXLogRecPtr, blkno = GIN_ROOT_BLKNO\<rparr>] st"

section \<open>Example indexes\<close>

text \<open>
  A comparator in the way of \<open>ginCompareEntries\<close> (categories first, then the keys as
  unsigned numbers), an environment around it, and small pages and trees on which the
  functions above are run.
\<close>

definition cmp_unsigned ::
  "OffsetNumber \<Rightarrow> Datum \<Rightarrow> Datum \<Rightarrow> GinNullCategory \<Rightarrow> GinNullCategory \<Rightarrow> int" where
  "cmp_unsigned attnum a b ca cb =
     (if ca \<noteq> cb then (if ca < cb then -1 else 1)
      else if a < b then -1 else if a = b then 0 else 1)"

definition ex_env :: Env where
  "ex_env = \<lparr>ginCompareEntries = cmp_unsigned,
     ginPostingListDecode = map (\<lambda>b. \<lparr>ip_blkid = 0, ip_posid = ucast b\<rparr>),
     gincheckpage = (\<lambda>_. True),
     OffsetNumberIsValid = (\<lambda>off. off \<noteq> 0),
     MAXALIGN = (\<lambda>n. ((n + 7) div 8) * 8),
     MaxIndexTuplesPerPage = 408\<rparr>"

text \<open>A leaf tuple with key \<open>k\<close> and the one heap pointer \<open>(0, 1)\<close>.\<close>

definition ex_leaf_tuple :: "Datum \<Rightarrow> IndexTuple" where
  "ex_leaf_tuple k =
     \<lparr>t_tid = \<lparr>ip_blkid = 0, ip_posid = 1\<rparr>, t_size = 16, t_attnum = 1, t_key = k,
      t_category = 0, t_is_posting_tree = False, t_posting_tree = 0, t_nposting = 1,
      t_posting = Uncompressed [\<lparr>ip_blkid = 0, ip_posid = 1\<rparr>]\<rparr>"

text \<open>A leaf tuple whose compressed posting list is \<open>bytes\<close> and whose header says \<open>n\<close>.\<close>

definition ex_compressed_tuple :: "16 word \<Rightarrow> 8 word list \<Rightarrow> IndexTuple" where
  "ex_compressed_tuple n bytes =
     \<lparr>t_tid = \<lparr>ip_blkid = 0, ip_posid = n\<rparr>, t_size = 16, t_attnum = 1, t_key = 5,
      t_category = 0, t_is_posting_tree = False, t_posting_tree = 0, t_nposting = n,
      t_posting = Compressed bytes\<rparr>"

text \<open>A tuple of an internal page: key \<open>k\<close>, downlink to block \<open>b\<close>.\<close>

definition ex_downlink :: "Datum \<Rightarrow> BlockNumber \<Rightarrow> IndexTuple" where
  "ex_downlink k b =
     \<lparr>t_tid = \<lparr>ip_blkid = b, ip_posid = 0\<rparr>, t_size = 16, t_attnum = 1, t_key = k,
      t_category = 0, t_is_posting_tree = False, t_posting_tree = 0, t_nposting = 0,
      t_posting = Uncompressed []\<rparr>"

definition ex_entry_page :: "bool \<Rightarrow> BlockNumber \<Rightarrow> IndexTuple list \<Rightarrow> Page" where
  "ex_entry_page leaf rightlink ts =
     \<lparr>pg_deleted = False, pg_leaf = leaf, pg_rightlink = rightlink, pg_lsn = 0,
      pg_body = EntryItems (map (\<lambda>t. \<lparr>lp_len = t_size t, lp_tuple = t\<rparr>) ts)\<rparr>"

definition ex_deleted_page :: "bool \<Rightarrow> Page" where
  "ex_deleted_page leaf =
     \<lparr>pg_deleted = True, pg_leaf = leaf, pg_rightlink = InvalidBlockNumber, pg_lsn = 0,
      pg_body = EntryItems []\<rparr>"

definition ex_data_page :: "bool \<Rightarrow> PostingItem list \<Rightarrow> Page" where
  "ex_data_page leaf ps =
     \<lparr>pg_deleted = False, pg_leaf = leaf, pg_rightlink = InvalidBlockNumber, pg_lsn = 0,
      pg_body = DataItems ps\<rparr>"

text \<open>An index nobody changes and nobody interrupts.\<close>

definition ex_rel :: "(BlockNumber \<Rightarrow> Page option) \<Rightarrow> Relation" where
  "ex_rel pages = \<lparr>rel_page = (\<lambda>t. pages), rel_interrupt = (\<lambda>t. False)\<rparr>"

definition st0 :: WState where
  "st0 = \<lparr>reads = 0, messages = []\<rparr>"

text \<open>
  An entry tree of two levels: the root, block 1, holds the one downlink \<open>(pk, 2)\<close>;
  block 2 is a leaf with the one key \<open>k\<close> and the right sibling 3; block 3 is the
  right-most leaf, with the key 25.
\<close>

definition ex_tree :: "Datum \<Rightarrow> Datum \<Rightarrow> BlockNumber \<Rightarrow> Page option" where
  "ex_tree pk k b =
     (if b = 1 then Some (ex_entry_page False InvalidBlockNumber [ex_downlink pk 2])
      else if b = 2 then Some (ex_entry_page True 3 [ex_leaf_tuple k])
      else if b = 3 then Some (ex_entry_page True InvalidBlockNumber [ex_leaf_tuple 25])
      else None)"

text \<open>
  An index that changes during the walk: the first two reads see \<open>ex_tree 10 7\<close>, the
  later ones \<open>ex_tree 5 7\<close>, where the downlink of block 2 has the key 5.
\<close>

definition ex_split_rel :: Relation where
  "ex_split_rel =
     \<lparr>rel_page = (\<lambda>t. if t < 2 then ex_tree 10 7 else ex_tree 5 7),
      rel_interrupt = (\<lambda>t. False)\<rparr>"

text \<open>The frame the root of \<open>ex_tree 10 k\<close> pushes for its child, block \<open>b\<close>.\<close>

definition ex_frame :: "BlockNumber \<Rightarrow> GinScanItem" where
  "ex_frame b =
     \<lparr>depth = 1, parenttup = Some (ex_downlink 10 2), parentblk = 1, parentlsn = 0,
      blkno = b\<rparr>"

text \<open>
  A posting tree of two levels: the root, block 2, is an internal data page with two
  posting items, the second the right-most one with the key \<open>(0, 0)\<close>; block 6 is a
  data leaf; block 5, the child of the right-most item, cannot be read.
\<close>

definition ex_posting_items :: "PostingItem list" where
  "ex_posting_items =
     [\<lparr>child_blkno = 6, key = \<lparr>ip_blkid = 1, ip_posid = 1\<rparr>\<rparr>,
      \<lparr>child_blkno = 5, key = \<lparr>ip_blkid = 0, ip_posid = 0\<rparr>\<rparr>]"

definition ex_posting_tree :: "BlockNumber \<Rightarrow> Page option" where
  "ex_posting_tree b =
     (if b = 2 then Some (ex_data_page False ex_posting_items)
      else if b = 6 then Some (ex_data_page True [])
      else None)"

definition ex_posting_frame :: "int \<Rightarrow> BlockNumber \<Rightarrow> GinPostingTreeScanItem" where
  "ex_posting_frame d b =
     \<lparr>pt_depth = d, pt_parenttup = None, pt_parentblk = InvalidBlockNumber, pt_blkno = b\<rparr>"

text \<open>A leaf tuple with key \<open>k\<close> whose item pointers are in the posting tree at \<open>root\<close>.\<close>

definition ex_posting_tree_tuple :: "Datum \<Rightarrow> BlockNumber \<Rightarrow> IndexTuple" where
  "ex_posting_tree_tuple k root =
     \<lparr>t_tid = \<lparr>ip_blkid = root, ip_posid = 0xFFFF\<rparr>, t_size = 16, t_attnum = 1, t_key = k,
      t_category = 0, t_is_posting_tree = True, t_posting_tree = root, t_nposting = 0xFFFF,
      t_posting = Uncompressed []\<rparr>"

text \<open>
  An entry tree whose only leaf, block 2 at depth 1, holds one entry with a posting tree:
  the data leaf at block 6, at depth 0 of its own tree.
\<close>

definition ex_mixed_tree :: "BlockNumber \<Rightarrow> Page option" where
  "ex_mixed_tree b =
     (if b = 1 then Some (ex_entry_page False InvalidBlockNumber [ex_downlink 10 2])
      else if b = 2 then
        Some (ex_entry_page True InvalidBlockNumber [ex_posting_tree_tuple 12 6])
      else if b = 6 then Some (ex_data_page True [])
      else None)"

text \<open>An index of one page: the root, block 1, a leaf with the keys \<open>ks\<close> in this order.\<close>

definition ex_leaf_root :: "Datum list \<Rightarrow> BlockNumber \<Rightarrow> Page option" where
  "ex_leaf_root ks b =
     (if b = 1 then Some (ex_entry_page True InvalidBlockNumber (map ex_leaf_tuple ks))
      else None)"

text \<open>An index whose root, block 1, is an internal page without any tuple.\<close>

definition ex_empty_root :: "BlockNumber \<Rightarrow> Page option" where
  "ex_empty_root b =
     (if b = 1 then Some (ex_entry_page False InvalidBlockNumber []) else None)"

text \<open>
  An index of one page: the root, block 1, a leaf with one entry whose compressed posting
  list is empty and whose header counts no item.
\<close>

definition ex_empty_list_root :: "BlockNumber \<Rightarrow> Page option" where
  "ex_empty_list_root b =
     (if b = 1 then Some (ex_entry_page True InvalidBlockNumber [ex_compressed_tuple 0 []])
      else None)"

section \<open>The page sanity check\<close>

text \<open>
  C8. Once the generic page check has passed, \<open>check_index_page\<close> raises exactly when
  the page is deleted and not a leaf, or deleted with a tuple count that is not zero, or
  not deleted with a tuple count above the maximum of a page. Whatever it raises is an
  index corruption. A deleted leaf without tuples passes, and on a deleted page the result
  does not depend on the maximum.
\<close>

theorem check_index_page_raises_iff:
  assumes "gincheckpage env page"
  shows "((\<exists>e. check_index_page env page blockNo = Inl e) \<longleftrightarrow>
            (GinPageIsDeleted page \<and> \<not> GinPageIsLeaf page)
          \<or> (GinPageIsDeleted page \<and> PageGetMaxOffsetNumber page \<noteq> 0)
          \<or> (\<not> GinPageIsDeleted page \<and>
              PageGetMaxOffsetNumber page > MaxIndexTuplesPerPage env))
       \<and> (\<forall>e. check_index_page env page blockNo = Inl e \<longrightarrow> index_corrupted e)
       \<and> (GinPageIsDeleted page \<and> GinPageIsLeaf page \<and> PageGetMaxOffsetNumber page = 0
            \<longrightarrow> check_index_page env page blockNo = Inr ())
       \<and> (GinPageIsDeleted page \<longrightarrow>
            check_index_page (env\<lparr>MaxIndexTuplesPerPage := m\<rparr>) page blockNo =
            check_index_page env page blockNo)"
  using assms by (auto simp: check_index_page_def InvalidOffsetNumber_def)

theorem check_index_page_raises_iff_witness:
  "gincheckpage ex_env (ex_deleted_page True)
   \<and> GinPageIsDeleted (ex_deleted_page True) \<and> GinPageIsLeaf (ex_deleted_page True)
   \<and> PageGetMaxOffsetNumber (ex_deleted_page True) = 0
   \<and> check_index_page ex_env (ex_deleted_page True) 7 = Inr ()
   \<and> check_index_page (ex_env\<lparr>MaxIndexTuplesPerPage := 0\<rparr>) (ex_deleted_page True) 7 = Inr ()
   \<and> gincheckpage ex_env (ex_deleted_page False)
   \<and> GinPageIsDeleted (ex_deleted_page False) \<and> \<not> GinPageIsLeaf (ex_deleted_page False)
   \<and> check_index_page ex_env (ex_deleted_page False) 7 = Inl (Deleted_internal_page 7)
   \<and> index_corrupted (Deleted_internal_page 7)"
proof -
  have pass: "gincheckpage ex_env (ex_deleted_page True)"
    and pass': "gincheckpage ex_env (ex_deleted_page False)"
    by (simp_all add: ex_env_def)
  have leaf: "GinPageIsDeleted (ex_deleted_page True) \<and> GinPageIsLeaf (ex_deleted_page True)
      \<and> PageGetMaxOffsetNumber (ex_deleted_page True) = 0"
    and internal: "GinPageIsDeleted (ex_deleted_page False)
      \<and> \<not> GinPageIsLeaf (ex_deleted_page False)"
    by (simp_all add: ex_deleted_page_def GinPageIsDeleted_def GinPageIsLeaf_def
        PageGetMaxOffsetNumber_def)
  have raised: "check_index_page ex_env (ex_deleted_page False) 7 = Inl (Deleted_internal_page 7)"
    using internal by (simp add: check_index_page_def ex_env_def)
  show ?thesis
    using check_index_page_raises_iff [OF pass, of 7 0]
      check_index_page_raises_iff [OF pass', of 7 0] pass pass' leaf internal raised
    by simp
qed

section \<open>The tuple reader\<close>

text \<open>
  C9. On a tuple whose posting list is compressed, \<open>ginReadTupleWithoutState\<close> decodes
  the list when the count of the header is positive: it raises the mismatch error with
  both counts when they differ, and returns the decoded array with the count of the
  header when they agree. When the count of the header is zero nothing is decoded, and
  the empty array is returned with the count 0.
\<close>

theorem ginReadTupleWithoutState_compressed:
  assumes "t_posting itup = Compressed bytes"
  shows "(0 < uint (t_nposting itup) \<and>
          uint (t_nposting itup) \<noteq> int (length (ginPostingListDecode env bytes)) \<longrightarrow>
            ginReadTupleWithoutState env itup =
              Inl (Items_mismatch (uint (t_nposting itup))
                     (int (length (ginPostingListDecode env bytes)))))
       \<and> (0 < uint (t_nposting itup) \<and>
          uint (t_nposting itup) = int (length (ginPostingListDecode env bytes)) \<longrightarrow>
            ginReadTupleWithoutState env itup =
              Inr (ginPostingListDecode env bytes, uint (t_nposting itup)))
       \<and> (\<not> 0 < uint (t_nposting itup) \<longrightarrow>
            uint (t_nposting itup) = 0 \<and> ginReadTupleWithoutState env itup = Inr ([], 0))"
proof -
  have zero: "\<not> 0 < uint (t_nposting itup) \<Longrightarrow> uint (t_nposting itup) = 0"
    using uint_nonnegative [of "t_nposting itup"] by linarith
  show ?thesis
    using assms zero by (auto simp: ginReadTupleWithoutState_def Let_def)
qed

theorem ginReadTupleWithoutState_compressed_witness:
  "t_posting (ex_compressed_tuple 2 [1, 2, 3]) = Compressed [1, 2, 3]
   \<and> ginReadTupleWithoutState ex_env (ex_compressed_tuple 2 [1, 2, 3]) =
       Inl (Items_mismatch 2 3)
   \<and> ginReadTupleWithoutState ex_env (ex_compressed_tuple 3 [1, 2, 3]) =
       Inr ([\<lparr>ip_blkid = 0, ip_posid = 1\<rparr>, \<lparr>ip_blkid = 0, ip_posid = 2\<rparr>,
             \<lparr>ip_blkid = 0, ip_posid = 3\<rparr>], 3)
   \<and> ginReadTupleWithoutState ex_env (ex_compressed_tuple 0 [1, 2, 3]) = Inr ([], 0)"
proof -
  have posting: "t_posting (ex_compressed_tuple n [1, 2, 3]) = Compressed [1, 2, 3]" for n
    by (simp add: ex_compressed_tuple_def)
  show ?thesis
    using ginReadTupleWithoutState_compressed [OF posting, of 2 ex_env]
      ginReadTupleWithoutState_compressed [OF posting, of 3 ex_env]
      ginReadTupleWithoutState_compressed [OF posting, of 0 ex_env]
    by (simp add: ex_compressed_tuple_def ex_env_def)
qed

section \<open>The right sibling after a split\<close>

lemma PageGetItemCareful_last:
  assumes "pg_body page = EntryItems ts" "ts \<noteq> []"
  shows "PageGetItemCareful b page (PageGetMaxOffsetNumber page) = Inr (last ts)"
  using assms
  by (simp add: PageGetItemCareful_def PageGetMaxOffsetNumber_def FirstOffsetNumber_def
      last_conv_nth Suc_leI)

text \<open>
  C4. Without a parent tuple nothing is pushed. With a parent tuple, on a page that holds
  tuples: when the right link of the page is valid and the comparator, applied (under the
  attribute of the last tuple of the page) to the key of that tuple and the key of the
  parent tuple, yields at most 0, a frame with the depth, the parent tuple, the parent
  block and the parent LSN of the current frame and with the right sibling as its block
  is linked in after the current frame; otherwise the stack is left as it is. On any page,
  a stack that was changed was changed in this way and for this reason.
\<close>

theorem split_adjust_pushes_right_sibling:
  "(parenttup stack = None \<longrightarrow> split_adjust env stack page nxt st = Inr (nxt, st))
   \<and> (parenttup stack = Some ptup \<and> pg_body page = EntryItems ts \<and> ts \<noteq> [] \<longrightarrow>
        (if pg_rightlink page \<noteq> InvalidBlockNumber \<and>
            ginCompareEntries env (t_attnum (lp_tuple (last ts))) (t_key (lp_tuple (last ts)))
              (t_key ptup) (t_category (lp_tuple (last ts))) (t_category ptup) \<le> 0
         then split_adjust env stack page nxt st =
                Inr (\<lparr>depth = depth stack, parenttup = parenttup stack,
                       parentblk = parentblk stack, parentlsn = parentlsn stack,
                       blkno = pg_rightlink page\<rparr> # nxt, elog Info_split_detected st)
         else split_adjust env stack page nxt st = Inr (nxt, st)))
   \<and> (\<forall>nxt1 st1. split_adjust env stack page nxt st = Inr (nxt1, st1) \<and> nxt1 \<noteq> nxt \<longrightarrow>
        nxt1 = \<lparr>depth = depth stack, parenttup = parenttup stack,
                 parentblk = parentblk stack, parentlsn = parentlsn stack,
                 blkno = pg_rightlink page\<rparr> # nxt
        \<and> pg_rightlink page \<noteq> InvalidBlockNumber
        \<and> (\<exists>ptup iid.
              parenttup stack = Some ptup \<and>
              PageGetItemCareful (blkno stack) page (PageGetMaxOffsetNumber page) = Inr iid \<and>
              ginCompareEntries env (t_attnum (lp_tuple iid)) (t_key (lp_tuple iid))
                (t_key ptup) (t_category (lp_tuple iid)) (t_category ptup) \<le> 0))"
proof -
  have only: "nxt1 = \<lparr>depth = depth stack, parenttup = parenttup stack,
                 parentblk = parentblk stack, parentlsn = parentlsn stack,
                 blkno = pg_rightlink page\<rparr> # nxt
        \<and> pg_rightlink page \<noteq> InvalidBlockNumber
        \<and> (\<exists>ptup iid.
              parenttup stack = Some ptup \<and>
              PageGetItemCareful (blkno stack) page (PageGetMaxOffsetNumber page) = Inr iid \<and>
              ginCompareEntries env (t_attnum (lp_tuple iid)) (t_key (lp_tuple iid))
                (t_key ptup) (t_category (lp_tuple iid)) (t_category ptup) \<le> 0)"
    if "split_adjust env stack page nxt st = Inr (nxt1, st1)" "nxt1 \<noteq> nxt" for nxt1 st1
    using that
    by (auto simp: split_adjust_def Let_def split: option.splits sum.splits if_splits)
  show ?thesis
    using only by (auto simp: split_adjust_def PageGetItemCareful_last Let_def)
qed

theorem split_adjust_pushes_right_sibling_witness:
  "parenttup (ex_frame 2) = Some (ex_downlink 10 2)
   \<and> cmp_unsigned 1 7 10 0 0 = -1
   \<and> split_adjust ex_env (ex_frame 2) (ex_entry_page True 3 [ex_leaf_tuple 7]) [] st0 =
       Inr ([ex_frame 3], elog Info_split_detected st0)
   \<and> cmp_unsigned 1 12 10 0 0 = 1
   \<and> split_adjust ex_env (ex_frame 2) (ex_entry_page True 3 [ex_leaf_tuple 12]) [] st0 =
       Inr ([], st0)
   \<and> split_adjust ex_env (ex_frame 2)
       (ex_entry_page True InvalidBlockNumber [ex_leaf_tuple 7]) [] st0 = Inr ([], st0)
   \<and> split_adjust ex_env ((ex_frame 2)\<lparr>parenttup := None\<rparr>)
       (ex_entry_page True 3 [ex_leaf_tuple 7]) [] st0 = Inr ([], st0)"
proof -
  let ?slot = "\<lambda>k. \<lparr>lp_len = 16, lp_tuple = ex_leaf_tuple k\<rparr>"
  have parent: "parenttup (ex_frame 2) = Some (ex_downlink 10 2)"
    by (simp add: ex_frame_def)
  have body: "pg_body (ex_entry_page leaf r [ex_leaf_tuple k]) = EntryItems [?slot k]"
    for leaf r k
    by (simp add: ex_entry_page_def ex_leaf_tuple_def)
  have rl: "pg_rightlink (ex_entry_page leaf r ts) = r" for leaf r ts
    by (simp add: ex_entry_page_def)
  have cmp: "ginCompareEntries ex_env (t_attnum (ex_leaf_tuple k)) (t_key (ex_leaf_tuple k))
      (t_key (ex_downlink 10 2)) (t_category (ex_leaf_tuple k))
      (t_category (ex_downlink 10 2)) = cmp_unsigned 1 k 10 0 0" for k
    by (simp add: ex_env_def ex_leaf_tuple_def ex_downlink_def)
  have cmpv: "cmp_unsigned 1 7 10 0 0 = -1" "cmp_unsigned 1 12 10 0 0 = 1"
    by (simp_all add: cmp_unsigned_def)
  have sib: "\<lparr>depth = depth (ex_frame 2), parenttup = Some (ex_downlink 10 2),
      parentblk = parentblk (ex_frame 2), parentlsn = parentlsn (ex_frame 2),
      blkno = 3\<rparr> = ex_frame 3"
    by (simp add: ex_frame_def)
  have valid: "(3 :: BlockNumber) \<noteq> InvalidBlockNumber"
    by (simp add: InvalidBlockNumber_def)
  note inst = split_adjust_pushes_right_sibling
    [where env = ex_env and ptup = "ex_downlink 10 2" and nxt = "[]" and st = st0]
  have a: "split_adjust ex_env (ex_frame 2) (ex_entry_page True 3 [ex_leaf_tuple 7]) [] st0 =
      Inr ([ex_frame 3], elog Info_split_detected st0)"
    using inst [where stack = "ex_frame 2" and page = "ex_entry_page True 3 [ex_leaf_tuple 7]"
        and ts = "[?slot 7]"]
    by (simp add: parent body rl cmp cmpv sib valid)
  have b: "split_adjust ex_env (ex_frame 2) (ex_entry_page True 3 [ex_leaf_tuple 12]) [] st0 =
      Inr ([], st0)"
    using inst [where stack = "ex_frame 2" and page = "ex_entry_page True 3 [ex_leaf_tuple 12]"
        and ts = "[?slot 12]"]
    by (simp add: parent body rl cmp cmpv sib valid)
  have c: "split_adjust ex_env (ex_frame 2)
      (ex_entry_page True InvalidBlockNumber [ex_leaf_tuple 7]) [] st0 = Inr ([], st0)"
    using inst [where stack = "ex_frame 2"
        and page = "ex_entry_page True InvalidBlockNumber [ex_leaf_tuple 7]"
        and ts = "[?slot 7]"]
    by (simp add: parent body rl)
  have d: "split_adjust ex_env ((ex_frame 2)\<lparr>parenttup := None\<rparr>)
      (ex_entry_page True 3 [ex_leaf_tuple 7]) [] st0 = Inr ([], st0)"
    using inst [where stack = "(ex_frame 2)\<lparr>parenttup := None\<rparr>"
        and page = "ex_entry_page True 3 [ex_leaf_tuple 7]"]
    by simp
  show ?thesis
    using parent cmpv a b c d by simp
qed

section \<open>The parent key and the re-found downlink\<close>

lemma refind_loop_drop:
  assumes "pg_body parentpage = EntryItems ts"
  shows "k \<le> length ts \<Longrightarrow>
         refind_loop pb parentpage cb [Suc k ..< Suc (length ts)] =
           Inr (find (\<lambda>t. ip_blkid (t_tid t) = cb) (map lp_tuple (drop k ts)))"
proof (induction "length ts - k" arbitrary: k)
  case 0
  then show ?case by simp
next
  case (Suc n)
  then have k: "k < length ts" by simp
  then have upt: "[Suc k ..< Suc (length ts)] = Suc k # [Suc (Suc k) ..< Suc (length ts)]"
    by (simp add: upt_conv_Cons)
  have item: "PageGetItemCareful pb parentpage (Suc k) = Inr (ts ! k)"
    using assms k by (simp add: PageGetItemCareful_def FirstOffsetNumber_def Suc_leI)
  have drop: "drop k ts = ts ! k # drop (Suc k) ts"
    using k by (simp add: Cons_nth_drop_Suc)
  have IH: "refind_loop pb parentpage cb [Suc (Suc k) ..< Suc (length ts)] =
           Inr (find (\<lambda>t. ip_blkid (t_tid t) = cb) (map lp_tuple (drop (Suc k) ts)))"
    using Suc.hyps(1) [of "Suc k"] Suc.hyps(2) k by simp
  show ?case
    unfolding upt drop using item IH by (simp add: Let_def)
qed

text \<open>On an entry page the scan returns the first tuple whose downlink is the child.\<close>

lemma refind_loop_entry:
  assumes "pg_body parentpage = EntryItems ts"
  shows "refind_loop pb parentpage cb
           [FirstOffsetNumber ..< Suc (PageGetMaxOffsetNumber parentpage)] =
           Inr (find (\<lambda>t. ip_blkid (t_tid t) = cb) (map lp_tuple ts))"
  using refind_loop_drop [OF assms, of 0 pb cb] assms
  by (simp add: FirstOffsetNumber_def PageGetMaxOffsetNumber_def)

lemma gin_refind_parent_not_found:
  assumes "ReadBuffer rel pb st = Inr (ppage, st1)" "pg_body ppage = EntryItems ts"
    and "\<forall>s\<in>set ts. ip_blkid (t_tid (lp_tuple s)) \<noteq> cb"
  shows "gin_refind_parent rel pb cb st = Inr (None, st1)"
proof -
  have "find (\<lambda>t. ip_blkid (t_tid t) = cb) (map lp_tuple ts) = None"
    using assms(3) by (simp add: find_None_iff)
  then show ?thesis
    using assms(1,2) by (simp add: gin_refind_parent_def refind_loop_entry del: upt_Suc)
qed

text \<open>
  C2. The frame has a parent tuple, the tuple at hand is the last of its page, and the
  comparator applied to its key and the key of the parent tuple is not positive. Then the
  downlink is looked up again in the parent page. When the lookup returns no tuple, and so
  when the parent page read holds no tuple whose downlink is the block of the frame, a
  notice is emitted and the check ends without an error. When it returns a tuple, the
  check passes if the comparison with this tuple is positive and raises the error of
  inconsistent records, with the block and the offset, if it is not. The check raises
  nothing else, except what reading the parent page raises.
\<close>

theorem check_parent_key_refind:
  assumes "parenttup stack = Some ptup" and "i = maxoff"
    and "\<not> 0 < ginCompareEntries env (t_attnum idxtuple) (t_key idxtuple) (t_key ptup)
                 (t_category idxtuple) (t_category ptup)"
  shows "(\<forall>st1. gin_refind_parent rel (parentblk stack) (blkno stack) st = Inr (None, st1) \<longrightarrow>
            check_parent_key env rel stack i maxoff idxtuple st =
              Inr (stack\<lparr>parenttup := None\<rparr>,
                   elog (Notice_no_parent_tuple (blkno stack) (parentblk stack)) st1))
       \<and> (\<forall>ptup1 st1.
            gin_refind_parent rel (parentblk stack) (blkno stack) st = Inr (Some ptup1, st1) \<longrightarrow>
            (if 0 < ginCompareEntries env (t_attnum idxtuple) (t_key idxtuple) (t_key ptup1)
                      (t_category idxtuple) (t_category ptup1)
             then check_parent_key env rel stack i maxoff idxtuple st =
                    Inr (stack\<lparr>parenttup := Some ptup1\<rparr>, st1)
             else check_parent_key env rel stack i maxoff idxtuple st =
                    Inl (Inconsistent_records (blkno stack) i)))
       \<and> (\<forall>e. check_parent_key env rel stack i maxoff idxtuple st = Inl e \<longrightarrow>
            gin_refind_parent rel (parentblk stack) (blkno stack) st = Inl e \<or>
            (e = Inconsistent_records (blkno stack) i \<and>
             (\<exists>ptup1 st1.
                gin_refind_parent rel (parentblk stack) (blkno stack) st = Inr (Some ptup1, st1) \<and>
                \<not> 0 < ginCompareEntries env (t_attnum idxtuple) (t_key idxtuple) (t_key ptup1)
                        (t_category idxtuple) (t_category ptup1))))
       \<and> (\<forall>ppage st1 ts.
            ReadBuffer rel (parentblk stack) st = Inr (ppage, st1) \<and>
            pg_body ppage = EntryItems ts \<and>
            (\<forall>s\<in>set ts. ip_blkid (t_tid (lp_tuple s)) \<noteq> blkno stack) \<longrightarrow>
            check_parent_key env rel stack i maxoff idxtuple st =
              Inr (stack\<lparr>parenttup := None\<rparr>,
                   elog (Notice_no_parent_tuple (blkno stack) (parentblk stack)) st1))"
proof -
  have unfold: "check_parent_key env rel stack i maxoff idxtuple st =
      (case gin_refind_parent rel (parentblk stack) (blkno stack) st of
         Inl e \<Rightarrow> Inl e
       | Inr (None, st1) \<Rightarrow>
           Inr (stack\<lparr>parenttup := None\<rparr>,
                elog (Notice_no_parent_tuple (blkno stack) (parentblk stack)) st1)
       | Inr (Some ptup1, st1) \<Rightarrow>
           if ginCompareEntries env (t_attnum idxtuple) (t_key idxtuple) (t_key ptup1)
                (t_category idxtuple) (t_category ptup1) \<le> 0
           then Inl (Inconsistent_records (blkno stack) i)
           else Inr (stack\<lparr>parenttup := Some ptup1\<rparr>, st1))"
    using assms
    by (simp add: check_parent_key_def not_less split: sum.splits prod.splits option.splits)
  have a: "\<forall>st1. gin_refind_parent rel (parentblk stack) (blkno stack) st = Inr (None, st1) \<longrightarrow>
            check_parent_key env rel stack i maxoff idxtuple st =
              Inr (stack\<lparr>parenttup := None\<rparr>,
                   elog (Notice_no_parent_tuple (blkno stack) (parentblk stack)) st1)"
    by (simp add: unfold)
  have b: "\<forall>ptup1 st1.
            gin_refind_parent rel (parentblk stack) (blkno stack) st = Inr (Some ptup1, st1) \<longrightarrow>
            (if 0 < ginCompareEntries env (t_attnum idxtuple) (t_key idxtuple) (t_key ptup1)
                      (t_category idxtuple) (t_category ptup1)
             then check_parent_key env rel stack i maxoff idxtuple st =
                    Inr (stack\<lparr>parenttup := Some ptup1\<rparr>, st1)
             else check_parent_key env rel stack i maxoff idxtuple st =
                    Inl (Inconsistent_records (blkno stack) i))"
    by (simp add: unfold not_less)
  have c: "\<forall>e. check_parent_key env rel stack i maxoff idxtuple st = Inl e \<longrightarrow>
            gin_refind_parent rel (parentblk stack) (blkno stack) st = Inl e \<or>
            (e = Inconsistent_records (blkno stack) i \<and>
             (\<exists>ptup1 st1.
                gin_refind_parent rel (parentblk stack) (blkno stack) st = Inr (Some ptup1, st1) \<and>
                \<not> 0 < ginCompareEntries env (t_attnum idxtuple) (t_key idxtuple) (t_key ptup1)
                        (t_category idxtuple) (t_category ptup1)))"
    unfolding unfold
    by (auto split: sum.splits option.splits prod.splits if_splits)
  have d: "\<forall>ppage st1 ts.
            ReadBuffer rel (parentblk stack) st = Inr (ppage, st1) \<and>
            pg_body ppage = EntryItems ts \<and>
            (\<forall>s\<in>set ts. ip_blkid (t_tid (lp_tuple s)) \<noteq> blkno stack) \<longrightarrow>
            check_parent_key env rel stack i maxoff idxtuple st =
              Inr (stack\<lparr>parenttup := None\<rparr>,
                   elog (Notice_no_parent_tuple (blkno stack) (parentblk stack)) st1)"
    using a gin_refind_parent_not_found by blast
  show ?thesis using a b c d by blast
qed

theorem check_parent_key_refind_witness:
  "parenttup (ex_frame 2) = Some (ex_downlink 10 2)
   \<and> cmp_unsigned 1 7 10 0 0 = -1
   \<and> gin_refind_parent (ex_rel (ex_tree 10 7)) 1 2 st0 =
       Inr (Some (ex_downlink 10 2), st0\<lparr>reads := 1\<rparr>)
   \<and> check_parent_key ex_env (ex_rel (ex_tree 10 7)) (ex_frame 2) 1 1 (ex_leaf_tuple 7) st0 =
       Inl (Inconsistent_records 2 1)
   \<and> gin_refind_parent (ex_rel (ex_tree 5 7)) 1 2 st0 =
       Inr (Some (ex_downlink 5 2), st0\<lparr>reads := 1\<rparr>)
   \<and> cmp_unsigned 1 7 5 0 0 = 1
   \<and> check_parent_key ex_env (ex_rel (ex_tree 5 7)) (ex_frame 2) 1 1 (ex_leaf_tuple 7) st0 =
       Inr ((ex_frame 2)\<lparr>parenttup := Some (ex_downlink 5 2)\<rparr>, st0\<lparr>reads := 1\<rparr>)
   \<and> gin_refind_parent (ex_rel (ex_tree 10 7)) 1 3 st0 = Inr (None, st0\<lparr>reads := 1\<rparr>)
   \<and> check_parent_key ex_env (ex_rel (ex_tree 10 7)) (ex_frame 3) 1 1 (ex_leaf_tuple 7) st0 =
       Inr ((ex_frame 3)\<lparr>parenttup := None\<rparr>,
            elog (Notice_no_parent_tuple 3 1) (st0\<lparr>reads := 1\<rparr>))
   \<and> gin_check_parent_keys_consistency ex_env ex_split_rel 1 5 st0 =
       Some (Inr \<lparr>reads = 4,
                   messages = [Info_split_detected, Info_validating_posting_list 2 1,
                               Info_validating_posting_list 3 1]\<rparr>)"
proof -
  have parent: "parenttup (ex_frame 2) = Some (ex_downlink 10 2)"
    and parent': "parenttup (ex_frame 3) = Some (ex_downlink 10 2)"
    by (simp_all add: ex_frame_def)
  have cmp: "cmp_unsigned 1 7 10 0 0 = -1" "cmp_unsigned 1 7 5 0 0 = 1"
    by (simp_all add: cmp_unsigned_def)
  have fails: "\<not> 0 < ginCompareEntries ex_env (t_attnum (ex_leaf_tuple 7))
      (t_key (ex_leaf_tuple 7)) (t_key (ex_downlink 10 2)) (t_category (ex_leaf_tuple 7))
      (t_category (ex_downlink 10 2))"
    by (simp add: ex_env_def ex_leaf_tuple_def ex_downlink_def cmp_unsigned_def)
  have passes: "0 < ginCompareEntries ex_env (t_attnum (ex_leaf_tuple 7))
      (t_key (ex_leaf_tuple 7)) (t_key (ex_downlink 5 2)) (t_category (ex_leaf_tuple 7))
      (t_category (ex_downlink 5 2))"
    by (simp add: ex_env_def ex_leaf_tuple_def ex_downlink_def cmp_unsigned_def)
  have frame: "parentblk (ex_frame b) = 1" "blkno (ex_frame b) = b" for b
    by (simp_all add: ex_frame_def)
  have lastoff: "(1 :: nat) = 1"
    by (rule refl)
  have found: "gin_refind_parent (ex_rel (ex_tree 10 7)) 1 2 st0 =
      Inr (Some (ex_downlink 10 2), st0\<lparr>reads := 1\<rparr>)"
    by code_simp
  have refreshed: "gin_refind_parent (ex_rel (ex_tree 5 7)) 1 2 st0 =
      Inr (Some (ex_downlink 5 2), st0\<lparr>reads := 1\<rparr>)"
    by code_simp
  have missing: "gin_refind_parent (ex_rel (ex_tree 10 7)) 1 3 st0 =
      Inr (None, st0\<lparr>reads := 1\<rparr>)"
    by code_simp
  have found': "gin_refind_parent (ex_rel (ex_tree 10 7)) (parentblk (ex_frame 2))
      (blkno (ex_frame 2)) st0 = Inr (Some (ex_downlink 10 2), st0\<lparr>reads := 1\<rparr>)"
    and refreshed': "gin_refind_parent (ex_rel (ex_tree 5 7)) (parentblk (ex_frame 2))
      (blkno (ex_frame 2)) st0 = Inr (Some (ex_downlink 5 2), st0\<lparr>reads := 1\<rparr>)"
    and missing': "gin_refind_parent (ex_rel (ex_tree 10 7)) (parentblk (ex_frame 3))
      (blkno (ex_frame 3)) st0 = Inr (None, st0\<lparr>reads := 1\<rparr>)"
    by (simp_all add: frame found refreshed missing)
  have "if 0 < ginCompareEntries ex_env (t_attnum (ex_leaf_tuple 7))
      (t_key (ex_leaf_tuple 7)) (t_key (ex_downlink 10 2)) (t_category (ex_leaf_tuple 7))
      (t_category (ex_downlink 10 2))
    then check_parent_key ex_env (ex_rel (ex_tree 10 7)) (ex_frame 2) 1 1 (ex_leaf_tuple 7) st0 =
           Inr ((ex_frame 2)\<lparr>parenttup := Some (ex_downlink 10 2)\<rparr>, st0\<lparr>reads := 1\<rparr>)
    else check_parent_key ex_env (ex_rel (ex_tree 10 7)) (ex_frame 2) 1 1 (ex_leaf_tuple 7) st0 =
           Inl (Inconsistent_records (blkno (ex_frame 2)) 1)"
    using check_parent_key_refind
      [OF parent lastoff fails, where st = st0 and rel = "ex_rel (ex_tree 10 7)"] found'
    by blast
  then have a: "check_parent_key ex_env (ex_rel (ex_tree 10 7)) (ex_frame 2) 1 1
      (ex_leaf_tuple 7) st0 = Inl (Inconsistent_records 2 1)"
    using fails by (simp add: frame)
  have "if 0 < ginCompareEntries ex_env (t_attnum (ex_leaf_tuple 7))
      (t_key (ex_leaf_tuple 7)) (t_key (ex_downlink 5 2)) (t_category (ex_leaf_tuple 7))
      (t_category (ex_downlink 5 2))
    then check_parent_key ex_env (ex_rel (ex_tree 5 7)) (ex_frame 2) 1 1 (ex_leaf_tuple 7) st0 =
           Inr ((ex_frame 2)\<lparr>parenttup := Some (ex_downlink 5 2)\<rparr>, st0\<lparr>reads := 1\<rparr>)
    else check_parent_key ex_env (ex_rel (ex_tree 5 7)) (ex_frame 2) 1 1 (ex_leaf_tuple 7) st0 =
           Inl (Inconsistent_records (blkno (ex_frame 2)) 1)"
    using check_parent_key_refind
      [OF parent lastoff fails, where st = st0 and rel = "ex_rel (ex_tree 5 7)"] refreshed'
    by blast
  then have b: "check_parent_key ex_env (ex_rel (ex_tree 5 7)) (ex_frame 2) 1 1
      (ex_leaf_tuple 7) st0 =
      Inr ((ex_frame 2)\<lparr>parenttup := Some (ex_downlink 5 2)\<rparr>, st0\<lparr>reads := 1\<rparr>)"
    using passes by simp
  have "check_parent_key ex_env (ex_rel (ex_tree 10 7)) (ex_frame 3) 1 1 (ex_leaf_tuple 7) st0 =
      Inr ((ex_frame 3)\<lparr>parenttup := None\<rparr>,
           elog (Notice_no_parent_tuple (blkno (ex_frame 3)) (parentblk (ex_frame 3)))
             (st0\<lparr>reads := 1\<rparr>))"
    using check_parent_key_refind
      [OF parent' lastoff fails, where st = st0 and rel = "ex_rel (ex_tree 10 7)"] missing'
    by blast
  then have c: "check_parent_key ex_env (ex_rel (ex_tree 10 7)) (ex_frame 3) 1 1
      (ex_leaf_tuple 7) st0 =
      Inr ((ex_frame 3)\<lparr>parenttup := None\<rparr>,
           elog (Notice_no_parent_tuple 3 1) (st0\<lparr>reads := 1\<rparr>))"
    by (simp add: frame)
  have walk: "gin_check_parent_keys_consistency ex_env ex_split_rel 1 5 st0 =
      Some (Inr \<lparr>reads = 4,
                  messages = [Info_split_detected, Info_validating_posting_list 2 1,
                              Info_validating_posting_list 3 1]\<rparr>)"
    by code_simp
  show ?thesis
    by (intro conjI) (fact parent cmp found refreshed missing a b c walk)+
qed

section \<open>The children of an internal data page\<close>

lemma posting_items_loop_closed:
  "posting_items_loop stack page items nxt =
     (if GinPageIsLeaf page then nxt
      else rev (map (\<lambda>it. \<lparr>pt_depth = pt_depth stack + 1, pt_parenttup = Some it,
                             pt_parentblk = pt_blkno stack, pt_blkno = child_blkno it\<rparr>)
                 (filter (\<lambda>it. ip_blkid (key it) \<noteq> 0 \<and> ip_posid (key it) \<noteq> 0) items)) @ nxt)"
  by (induction items arbitrary: nxt) auto

text \<open>
  C3, as amended. On an internal data page, every posting item whose key has a block and
  an offset that are not zero gets a child frame: one level deeper, with the item as
  parent item, the page as parent block and the child of the item as block. The frames
  are linked in after the current frame, the last item first. An item whose key has the
  block 0 or the offset 0 gets no frame, so its child block is not pushed: every new frame
  of the stack belongs to an item whose key has neither.
\<close>

theorem posting_tree_children_pushed:
  assumes "\<not> rel_interrupt rel (reads st)"
    and "ReadBuffer rel (pt_blkno stack) st = Inr (page, st1)"
    and "pg_body page = DataItems items"
    and "\<not> GinPageIsLeaf page"
  shows "posting_tree_step rel leafdepth stack nxt st =
           Inr (leafdepth,
                rev (map (\<lambda>it. \<lparr>pt_depth = pt_depth stack + 1, pt_parenttup = Some it,
                                  pt_parentblk = pt_blkno stack, pt_blkno = child_blkno it\<rparr>)
                      (filter (\<lambda>it. ip_blkid (key it) \<noteq> 0 \<and> ip_posid (key it) \<noteq> 0) items))
                  @ nxt,
                st1)
       \<and> (\<forall>it\<in>set items. ip_blkid (key it) \<noteq> 0 \<and> ip_posid (key it) \<noteq> 0 \<longrightarrow>
             \<lparr>pt_depth = pt_depth stack + 1, pt_parenttup = Some it,
               pt_parentblk = pt_blkno stack, pt_blkno = child_blkno it\<rparr>
             \<in> set (posting_items_loop stack page items nxt))
       \<and> (\<forall>f\<in>set (posting_items_loop stack page items nxt).
             f \<in> set nxt \<or>
             (\<exists>it\<in>set items. ip_blkid (key it) \<noteq> 0 \<and> ip_posid (key it) \<noteq> 0 \<and>
                pt_parenttup f = Some it \<and> pt_blkno f = child_blkno it \<and>
                pt_depth f = pt_depth stack + 1 \<and> pt_parentblk f = pt_blkno stack))"
proof -
  have data: "GinPageIsData page" "GinDataPageGetPostingItems page = items"
    using assms(3) by (simp_all add: GinPageIsData_def GinDataPageGetPostingItems_def)
  have step: "posting_tree_step rel leafdepth stack nxt st =
      Inr (leafdepth, posting_items_loop stack page items nxt, st1)"
    using assms(1,2,4) data by (simp add: posting_tree_step_def)
  show ?thesis
    unfolding step posting_items_loop_closed using assms(4) by auto
qed

theorem posting_tree_children_pushed_witness:
  "\<not> GinPageIsLeaf (ex_data_page False ex_posting_items)
   \<and> ReadBuffer (ex_rel ex_posting_tree) 2 st0 =
       Inr (ex_data_page False ex_posting_items, st0\<lparr>reads := 1\<rparr>)
   \<and> posting_tree_step (ex_rel ex_posting_tree) (-1) (ex_posting_frame 0 2) [] st0 =
       Inr (-1,
            [\<lparr>pt_depth = 1,
              pt_parenttup = Some \<lparr>child_blkno = 6, key = \<lparr>ip_blkid = 1, ip_posid = 1\<rparr>\<rparr>,
              pt_parentblk = 2, pt_blkno = 6\<rparr>],
            st0\<lparr>reads := 1\<rparr>)"
proof -
  let ?rel = "ex_rel ex_posting_tree"
  let ?page = "ex_data_page False ex_posting_items"
  have quiet: "\<not> rel_interrupt ?rel (reads st0)"
    by (simp add: ex_rel_def)
  have frame: "pt_blkno (ex_posting_frame 0 2) = 2" "pt_depth (ex_posting_frame 0 2) = 0"
    by (simp_all add: ex_posting_frame_def)
  have read: "ReadBuffer ?rel 2 st0 = Inr (?page, st0\<lparr>reads := 1\<rparr>)"
    by code_simp
  then have read': "ReadBuffer ?rel (pt_blkno (ex_posting_frame 0 2)) st0 =
      Inr (?page, st0\<lparr>reads := 1\<rparr>)"
    by (simp add: frame)
  have body: "pg_body ?page = DataItems ex_posting_items"
    by (simp add: ex_data_page_def)
  have internal: "\<not> GinPageIsLeaf ?page"
    by (simp add: ex_data_page_def GinPageIsLeaf_def)
  have step: "posting_tree_step ?rel (-1) (ex_posting_frame 0 2) [] st0 =
      Inr (-1,
           rev (map (\<lambda>it. \<lparr>pt_depth = pt_depth (ex_posting_frame 0 2) + 1,
                             pt_parenttup = Some it,
                             pt_parentblk = pt_blkno (ex_posting_frame 0 2),
                             pt_blkno = child_blkno it\<rparr>)
                 (filter (\<lambda>it. ip_blkid (key it) \<noteq> 0 \<and> ip_posid (key it) \<noteq> 0)
                    ex_posting_items)) @ [],
           st0\<lparr>reads := 1\<rparr>)"
    using posting_tree_children_pushed [OF quiet read' body internal, of "-1" "[]"]
    by (rule conjunct1)
  have "posting_tree_step ?rel (-1) (ex_posting_frame 0 2) [] st0 =
       Inr (-1,
            [\<lparr>pt_depth = 1,
              pt_parenttup = Some \<lparr>child_blkno = 6, key = \<lparr>ip_blkid = 1, ip_posid = 1\<rparr>\<rparr>,
              pt_parentblk = 2, pt_blkno = 6\<rparr>],
            st0\<lparr>reads := 1\<rparr>)"
    unfolding step by (simp add: frame ex_posting_items_def)
  with internal read show ?thesis
    by simp
qed

text \<open>
  The claim as stated fails on \<open>ex_posting_tree\<close>: the right-most item of the internal
  page, with its key \<open>(0, 0)\<close>, has the child block 5; no frame for block 5 is pushed, and
  the walk over the tree ends well after two reads although block 5 cannot be read.
\<close>

theorem posting_tree_sentinel_child_skipped:
  "\<not> GinPageIsLeaf (ex_data_page False ex_posting_items)
   \<and> \<lparr>child_blkno = 5, key = \<lparr>ip_blkid = 0, ip_posid = 0\<rparr>\<rparr> \<in> set ex_posting_items
   \<and> 5 \<notin> set (map pt_blkno
        (posting_items_loop (ex_posting_frame 0 2) (ex_data_page False ex_posting_items)
           ex_posting_items []))
   \<and> rel_page (ex_rel ex_posting_tree) 1 5 = None
   \<and> gin_check_posting_tree_parent_keys_consistency (ex_rel ex_posting_tree) 3 2 st0 =
       Some (Inr \<lparr>reads = 2, messages = []\<rparr>)"
  by code_simp

section \<open>The depth of the leaves\<close>

lemma posting_step_leaf:
  assumes "\<not> rel_interrupt rel (reads st)"
    and "ReadBuffer rel (pt_blkno stack) st = Inr (page, st1)"
    and "GinPageIsData page" and "GinPageIsLeaf page"
  shows "posting_tree_step rel leafdepth stack nxt st =
     (if leafdepth = -1 then Inr (pt_depth stack, nxt, st1)
      else if pt_depth stack \<noteq> leafdepth then Inl (Unexpected_leaf (pt_blkno stack))
      else Inr (leafdepth, nxt, st1))"
proof -
  have "posting_items_loop stack page items nxt = nxt" for items
    using assms(4) by (induction items) simp_all
  then show ?thesis
    using assms by (simp add: posting_tree_step_def)
qed

lemma posting_step_keeps_leafdepth:
  assumes "posting_tree_step rel leafdepth stack nxt st = Inr (ld1, stack1, st1)"
    and "leafdepth \<noteq> -1"
  shows "ld1 = leafdepth"
  using assms
  by (auto simp: posting_tree_step_def split: if_splits sum.splits prod.splits)

lemma posting_items_loop_depth:
  assumes "f \<in> set (posting_items_loop stack page items nxt)"
  shows "f \<in> set nxt \<or> pt_depth f = pt_depth stack + 1"
  using assms by (auto simp: posting_items_loop_closed split: if_splits)

lemma posting_step_depths:
  assumes "posting_tree_step rel leafdepth stack nxt st = Inr (ld1, stack1, st1)"
    and "0 \<le> pt_depth stack" and "\<forall>f\<in>set nxt. 0 \<le> pt_depth f" and "-1 \<le> leafdepth"
  shows "(\<forall>f\<in>set stack1. 0 \<le> pt_depth f) \<and> -1 \<le> ld1"
  using assms posting_items_loop_depth
  by (fastforce simp: posting_tree_step_def split: if_splits sum.splits prod.splits)

lemma check_parent_key_frame:
  assumes "check_parent_key env rel stack i maxoff idxtuple st = Inr (stack1, st1)"
  shows "depth stack1 = depth stack \<and> blkno stack1 = blkno stack"
  using assms
  by (auto simp: check_parent_key_def split: option.splits if_splits sum.splits prod.splits)

lemma entry_items_loop_depth:
  assumes "entry_items_loop env rel fuel page lsn maxoff offsets prev stack nxt st =
             Some (Inr (stack1, nxt1, st1))"
  shows "depth stack1 = depth stack \<and>
         (\<forall>f\<in>set nxt1. f \<in> set nxt \<or> depth f = depth stack + 1)"
  using assms
proof (induction offsets arbitrary: prev stack nxt st)
  case Nil
  then show ?case by simp
next
  case (Cons i offsets)
  from Cons.prems obtain iid where iid: "PageGetItemCareful (blkno stack) page i = Inr iid"
    by (auto split: sum.splits)
  let ?t = "lp_tuple iid"
  from Cons.prems iid obtain stack2 st2 where
    chk: "check_parent_key env rel stack i maxoff ?t st = Inr (stack2, st2)"
    by (auto simp: Let_def split: sum.splits if_splits)
  have d2: "depth stack2 = depth stack"
    using check_parent_key_frame [OF chk] by simp
  show ?case
  proof (cases "GinPageIsLeaf page")
    case True
    with Cons.prems iid chk obtain st3 where
      rest: "entry_items_loop env rel fuel page lsn maxoff offsets (Some ?t) stack2 nxt st3 =
             Some (Inr (stack1, nxt1, st1))"
      by (auto simp: Let_def split: sum.splits if_splits option.splits)
    from Cons.IH [OF rest] d2 show ?thesis by simp
  next
    case False
    with Cons.prems iid chk have
      rest: "entry_items_loop env rel fuel page lsn maxoff offsets (Some ?t) stack2
               (\<lparr>depth = depth stack2 + 1, parenttup = Some ?t, parentblk = blkno stack2,
                 parentlsn = lsn, blkno = ip_blkid (t_tid ?t)\<rparr> # nxt) st2 =
             Some (Inr (stack1, nxt1, st1))"
      by (auto simp: Let_def split: sum.splits if_splits option.splits)
    from Cons.IH [OF rest] d2 show ?thesis by auto
  qed
qed

lemma split_adjust_depth:
  assumes "split_adjust env stack page nxt st = Inr (nxt1, st1)"
  shows "\<forall>f\<in>set nxt1. f \<in> set nxt \<or> depth f = depth stack"
  using assms
  by (auto simp: split_adjust_def Let_def split: option.splits sum.splits if_splits)


lemma entry_step_leafdepth:
  assumes "entry_step env rel fuel leafdepth stack nxt st = Some (Inr (ld1, stack1, st3))"
  shows "(leafdepth \<noteq> -1 \<longrightarrow> ld1 = leafdepth)"
  using assms
  by (auto simp: entry_step_def Let_def
      split: if_splits sum.splits prod.splits option.splits)

lemma entry_step_leaf:
  assumes "\<not> rel_interrupt rel (reads st)"
    and "ReadBuffer rel (blkno stack) st = Inr (page, st1)"
    and "check_index_page env page (blkno stack) = Inr ()"
    and "split_adjust env stack page nxt st1 = Inr (nxt1, st2)"
    and "GinPageIsLeaf page"
  shows "(leafdepth \<noteq> -1 \<and> depth stack \<noteq> leafdepth \<longrightarrow>
            entry_step env rel fuel leafdepth stack nxt st =
              Some (Inl (Unexpected_leaf (blkno stack))))
       \<and> (\<forall>ld1 stack1 st3.
            entry_step env rel fuel leafdepth stack nxt st = Some (Inr (ld1, stack1, st3)) \<longrightarrow>
            ld1 = depth stack)"
  using assms
  by (auto simp: entry_step_def Let_def
      split: if_splits sum.splits prod.splits option.splits)

lemma entry_step_depths:
  assumes "entry_step env rel fuel leafdepth stack nxt st = Some (Inr (ld1, stack1, st3))"
    and "0 \<le> depth stack" and "\<forall>f\<in>set nxt. 0 \<le> depth f" and "-1 \<le> leafdepth"
  shows "(\<forall>f\<in>set stack1. 0 \<le> depth f) \<and> -1 \<le> ld1"
proof -
  from assms(1) obtain page st1 nxt1 st2 stack2 where
    adj: "split_adjust env stack page nxt st1 = Inr (nxt1, st2)" and
    loop: "entry_items_loop env rel fuel page (pg_lsn page) (PageGetMaxOffsetNumber page)
             [FirstOffsetNumber ..< Suc (PageGetMaxOffsetNumber page)] None stack nxt1 st2 =
           Some (Inr (stack2, stack1, st3))" and
    ld: "ld1 = leafdepth \<or> ld1 = depth stack"
    by (auto simp: entry_step_def Let_def
        split: if_splits sum.splits prod.splits option.splits)
  have "\<forall>f\<in>set nxt1. 0 \<le> depth f"
    using split_adjust_depth [OF adj] assms(2,3) by auto
  then have "\<forall>f\<in>set stack1. 0 \<le> depth f"
    using entry_items_loop_depth [OF loop] assms(2) by auto
  then show ?thesis
    using ld assms(2,4) by auto
qed

text \<open>
  C5. In both walkers a leaf page met while no leaf depth is set (\<open>-1\<close>) sets it to the
  depth of its frame, and the walk goes on with this depth; a leaf page met later whose
  frame has another depth ends the walk with the error that names its block; one with
  the same depth leaves the leaf depth as it is. A leaf depth once set is never changed
  by a later page, and as the frames of a walk have depths from 0 on, a depth that was
  set is not \<open>-1\<close> again. For the entry walker this holds for a page that has passed
  the page check and the look at its right sibling, which come first. Each
  walk of a posting tree and the walk of the entry tree start with a leaf depth of their
  own, \<open>-1\<close>.
\<close>

theorem uniform_leaf_depth:
  "(\<not> rel_interrupt rel (reads st) \<and> ReadBuffer rel (pt_blkno pstack) st = Inr (page, st1) \<and>
    GinPageIsData page \<and> GinPageIsLeaf page \<longrightarrow>
      posting_tree_walk rel (Suc fuel) leafdepth (pstack # pnxt) st =
        (if leafdepth = -1 then posting_tree_walk rel fuel (pt_depth pstack) pnxt st1
         else if pt_depth pstack \<noteq> leafdepth
           then Some (Inl (Unexpected_leaf (pt_blkno pstack)))
         else posting_tree_walk rel fuel leafdepth pnxt st1))
   \<and> (\<not> rel_interrupt rel (reads st) \<and> ReadBuffer rel (blkno stack) st = Inr (page, st1) \<and>
      check_index_page env page (blkno stack) = Inr () \<and>
      split_adjust env stack page nxt st1 = Inr (nxt1, st2) \<and> GinPageIsLeaf page \<longrightarrow>
        (leafdepth \<noteq> -1 \<and> depth stack \<noteq> leafdepth \<longrightarrow>
           entry_walk env rel pfuel (Suc fuel) leafdepth (stack # nxt) st =
             Some (Inl (Unexpected_leaf (blkno stack))))
      \<and> (\<forall>ld1 stack1 st3.
           entry_step env rel pfuel leafdepth stack nxt st = Some (Inr (ld1, stack1, st3)) \<longrightarrow>
           ld1 = depth stack \<and>
           entry_walk env rel pfuel (Suc fuel) leafdepth (stack # nxt) st =
             entry_walk env rel pfuel fuel (depth stack) stack1 st3))
   \<and> (\<forall>ld1 stack1 st3.
        posting_tree_step rel leafdepth pstack pnxt st = Inr (ld1, stack1, st3) \<longrightarrow>
        (leafdepth \<noteq> -1 \<longrightarrow> ld1 = leafdepth) \<and>
        (0 \<le> pt_depth pstack \<and> (\<forall>f\<in>set pnxt. 0 \<le> pt_depth f) \<and> -1 \<le> leafdepth \<longrightarrow>
           (\<forall>f\<in>set stack1. 0 \<le> pt_depth f) \<and> -1 \<le> ld1))
   \<and> (\<forall>ld1 stack1 st3.
        entry_step env rel pfuel leafdepth stack nxt st = Some (Inr (ld1, stack1, st3)) \<longrightarrow>
        (leafdepth \<noteq> -1 \<longrightarrow> ld1 = leafdepth) \<and>
        (0 \<le> depth stack \<and> (\<forall>f\<in>set nxt. 0 \<le> depth f) \<and> -1 \<le> leafdepth \<longrightarrow>
           (\<forall>f\<in>set stack1. 0 \<le> depth f) \<and> -1 \<le> ld1))
   \<and> gin_check_posting_tree_parent_keys_consistency rel fuel root st =
       posting_tree_walk rel fuel (-1)
         [\<lparr>pt_depth = 0, pt_parenttup = None, pt_parentblk = InvalidBlockNumber,
           pt_blkno = root\<rparr>] st
   \<and> gin_check_parent_keys_consistency env rel root fuel st =
       entry_walk env rel fuel fuel (-1)
         [\<lparr>depth = 0, parenttup = None, parentblk = InvalidBlockNumber,
           parentlsn = InvalidXLogRecPtr, blkno = root\<rparr>] st"
proof -
  have posting: "posting_tree_walk rel (Suc fuel) leafdepth (pstack # pnxt) st =
        (if leafdepth = -1 then posting_tree_walk rel fuel (pt_depth pstack) pnxt st1
         else if pt_depth pstack \<noteq> leafdepth
           then Some (Inl (Unexpected_leaf (pt_blkno pstack)))
         else posting_tree_walk rel fuel leafdepth pnxt st1)"
    if "\<not> rel_interrupt rel (reads st)" "ReadBuffer rel (pt_blkno pstack) st = Inr (page, st1)"
      "GinPageIsData page" "GinPageIsLeaf page"
    using posting_step_leaf [OF that, of leafdepth pnxt] by simp
  have entry: "(leafdepth \<noteq> -1 \<and> depth stack \<noteq> leafdepth \<longrightarrow>
           entry_walk env rel pfuel (Suc fuel) leafdepth (stack # nxt) st =
             Some (Inl (Unexpected_leaf (blkno stack))))
      \<and> (\<forall>ld1 stack1 st3.
           entry_step env rel pfuel leafdepth stack nxt st = Some (Inr (ld1, stack1, st3)) \<longrightarrow>
           ld1 = depth stack \<and>
           entry_walk env rel pfuel (Suc fuel) leafdepth (stack # nxt) st =
             entry_walk env rel pfuel fuel (depth stack) stack1 st3)"
    if "\<not> rel_interrupt rel (reads st)" "ReadBuffer rel (blkno stack) st = Inr (page, st1)"
      "check_index_page env page (blkno stack) = Inr ()"
      "split_adjust env stack page nxt st1 = Inr (nxt1, st2)" "GinPageIsLeaf page"
    using entry_step_leaf [OF that, of leafdepth pfuel] by auto
  have keep: "\<forall>ld1 stack1 st3.
        posting_tree_step rel leafdepth pstack pnxt st = Inr (ld1, stack1, st3) \<longrightarrow>
        (leafdepth \<noteq> -1 \<longrightarrow> ld1 = leafdepth) \<and>
        (0 \<le> pt_depth pstack \<and> (\<forall>f\<in>set pnxt. 0 \<le> pt_depth f) \<and> -1 \<le> leafdepth \<longrightarrow>
           (\<forall>f\<in>set stack1. 0 \<le> pt_depth f) \<and> -1 \<le> ld1)"
  proof (intro allI impI)
    fix ld1 stack1 st3
    assume step: "posting_tree_step rel leafdepth pstack pnxt st = Inr (ld1, stack1, st3)"
    show "(leafdepth \<noteq> -1 \<longrightarrow> ld1 = leafdepth) \<and>
        (0 \<le> pt_depth pstack \<and> (\<forall>f\<in>set pnxt. 0 \<le> pt_depth f) \<and> -1 \<le> leafdepth \<longrightarrow>
           (\<forall>f\<in>set stack1. 0 \<le> pt_depth f) \<and> -1 \<le> ld1)"
      using posting_step_keeps_leafdepth [OF step] posting_step_depths [OF step] by blast
  qed
  have keep': "\<forall>ld1 stack1 st3.
        entry_step env rel pfuel leafdepth stack nxt st = Some (Inr (ld1, stack1, st3)) \<longrightarrow>
        (leafdepth \<noteq> -1 \<longrightarrow> ld1 = leafdepth) \<and>
        (0 \<le> depth stack \<and> (\<forall>f\<in>set nxt. 0 \<le> depth f) \<and> -1 \<le> leafdepth \<longrightarrow>
           (\<forall>f\<in>set stack1. 0 \<le> depth f) \<and> -1 \<le> ld1)"
  proof (intro allI impI)
    fix ld1 stack1 st3
    assume step: "entry_step env rel pfuel leafdepth stack nxt st = Some (Inr (ld1, stack1, st3))"
    show "(leafdepth \<noteq> -1 \<longrightarrow> ld1 = leafdepth) \<and>
        (0 \<le> depth stack \<and> (\<forall>f\<in>set nxt. 0 \<le> depth f) \<and> -1 \<le> leafdepth \<longrightarrow>
           (\<forall>f\<in>set stack1. 0 \<le> depth f) \<and> -1 \<le> ld1)"
      using entry_step_leafdepth [OF step] entry_step_depths [OF step] by blast
  qed
  have init: "gin_check_posting_tree_parent_keys_consistency rel fuel root st =
       posting_tree_walk rel fuel (-1)
         [\<lparr>pt_depth = 0, pt_parenttup = None, pt_parentblk = InvalidBlockNumber,
           pt_blkno = root\<rparr>] st"
    by (simp add: gin_check_posting_tree_parent_keys_consistency_def)
  have init': "gin_check_parent_keys_consistency env rel root fuel st =
       entry_walk env rel fuel fuel (-1)
         [\<lparr>depth = 0, parenttup = None, parentblk = InvalidBlockNumber,
           parentlsn = InvalidXLogRecPtr, blkno = root\<rparr>] st"
    by (simp add: gin_check_parent_keys_consistency_def)
  from posting have posting':
    "\<not> rel_interrupt rel (reads st) \<and> ReadBuffer rel (pt_blkno pstack) st = Inr (page, st1) \<and>
    GinPageIsData page \<and> GinPageIsLeaf page \<longrightarrow>
      posting_tree_walk rel (Suc fuel) leafdepth (pstack # pnxt) st =
        (if leafdepth = -1 then posting_tree_walk rel fuel (pt_depth pstack) pnxt st1
         else if pt_depth pstack \<noteq> leafdepth
           then Some (Inl (Unexpected_leaf (pt_blkno pstack)))
         else posting_tree_walk rel fuel leafdepth pnxt st1)"
    by blast
  from entry have entry':
    "\<not> rel_interrupt rel (reads st) \<and> ReadBuffer rel (blkno stack) st = Inr (page, st1) \<and>
      check_index_page env page (blkno stack) = Inr () \<and>
      split_adjust env stack page nxt st1 = Inr (nxt1, st2) \<and> GinPageIsLeaf page \<longrightarrow>
        (leafdepth \<noteq> -1 \<and> depth stack \<noteq> leafdepth \<longrightarrow>
           entry_walk env rel pfuel (Suc fuel) leafdepth (stack # nxt) st =
             Some (Inl (Unexpected_leaf (blkno stack))))
      \<and> (\<forall>ld1 stack1 st3.
           entry_step env rel pfuel leafdepth stack nxt st = Some (Inr (ld1, stack1, st3)) \<longrightarrow>
           ld1 = depth stack \<and>
           entry_walk env rel pfuel (Suc fuel) leafdepth (stack # nxt) st =
             entry_walk env rel pfuel fuel (depth stack) stack1 st3)"
    by blast
  show ?thesis
    by (intro conjI) (rule posting' entry' keep keep' init init')+
qed

theorem uniform_leaf_depth_witness:
  "posting_tree_walk (ex_rel ex_posting_tree) (Suc 0) 0 [ex_posting_frame 1 6] st0 =
     Some (Inl (Unexpected_leaf 6))
   \<and> posting_tree_walk (ex_rel ex_posting_tree) (Suc 0) (-1) [ex_posting_frame 1 6] st0 =
     Some (Inr (st0\<lparr>reads := 1\<rparr>))
   \<and> entry_walk ex_env (ex_rel (ex_tree 10 12)) 5 (Suc 0) 0 [ex_frame 2] st0 =
     Some (Inl (Unexpected_leaf 2))
   \<and> entry_step ex_env (ex_rel (ex_tree 10 12)) 5 (-1) (ex_frame 2) [] st0 =
     Some (Inr (1, [], \<lparr>reads = 1, messages = [Info_validating_posting_list 2 1]\<rparr>))
   \<and> gin_check_parent_keys_consistency ex_env (ex_rel ex_mixed_tree) 1 5 st0 =
     Some (Inr \<lparr>reads = 3, messages = [Info_validating_posting_tree 2 1]\<rparr>)"
proof -
  let ?prel = "ex_rel ex_posting_tree"
  let ?pfr = "ex_posting_frame 1 6"
  let ?ppg = "ex_data_page True []"
  let ?st1 = "st0\<lparr>reads := 1\<rparr>"
  have pante: "\<not> rel_interrupt ?prel (reads st0) \<and>
      ReadBuffer ?prel (pt_blkno ?pfr) st0 = Inr (?ppg, ?st1) \<and>
      GinPageIsData ?ppg \<and> GinPageIsLeaf ?ppg"
    by code_simp
  have pfr: "pt_depth ?pfr = 1" "pt_blkno ?pfr = 6"
    by (simp_all add: ex_posting_frame_def)
  have "posting_tree_walk ?prel (Suc 0) 0 [?pfr] st0 =
      (if (0 :: int) = -1 then posting_tree_walk ?prel 0 (pt_depth ?pfr) [] ?st1
       else if pt_depth ?pfr \<noteq> 0 then Some (Inl (Unexpected_leaf (pt_blkno ?pfr)))
       else posting_tree_walk ?prel 0 0 [] ?st1)"
    using uniform_leaf_depth [where rel = ?prel and st = st0 and pstack = ?pfr
        and page = ?ppg and ?st1.0 = ?st1 and leafdepth = 0 and fuel = 0 and pnxt = "[]"]
      pante
    by blast
  then have w1: "posting_tree_walk ?prel (Suc 0) 0 [?pfr] st0 = Some (Inl (Unexpected_leaf 6))"
    by (simp add: pfr)
  have "posting_tree_walk ?prel (Suc 0) (-1) [?pfr] st0 =
      (if (-1 :: int) = -1 then posting_tree_walk ?prel 0 (pt_depth ?pfr) [] ?st1
       else if pt_depth ?pfr \<noteq> -1 then Some (Inl (Unexpected_leaf (pt_blkno ?pfr)))
       else posting_tree_walk ?prel 0 (-1) [] ?st1)"
    using uniform_leaf_depth [where rel = ?prel and st = st0 and pstack = ?pfr
        and page = ?ppg and ?st1.0 = ?st1 and leafdepth = "-1" and fuel = 0 and pnxt = "[]"]
      pante
    by blast
  then have w2: "posting_tree_walk ?prel (Suc 0) (-1) [?pfr] st0 = Some (Inr ?st1)"
    by simp
  let ?erel = "ex_rel (ex_tree 10 12)"
  let ?epg = "ex_entry_page True 3 [ex_leaf_tuple 12]"
  have eante: "\<not> rel_interrupt ?erel (reads st0) \<and>
      ReadBuffer ?erel (blkno (ex_frame 2)) st0 = Inr (?epg, ?st1) \<and>
      check_index_page ex_env ?epg (blkno (ex_frame 2)) = Inr () \<and>
      split_adjust ex_env (ex_frame 2) ?epg [] ?st1 = Inr ([], ?st1) \<and> GinPageIsLeaf ?epg"
    by code_simp
  have efr: "depth (ex_frame 2) = 1" "blkno (ex_frame 2) = 2"
    by (simp_all add: ex_frame_def)
  have mismatch: "(0 :: int) \<noteq> -1 \<and> depth (ex_frame 2) \<noteq> 0"
    by (simp add: efr)
  have "entry_walk ex_env ?erel 5 (Suc 0) 0 [ex_frame 2] st0 =
      Some (Inl (Unexpected_leaf (blkno (ex_frame 2))))"
    using uniform_leaf_depth [where rel = ?erel and st = st0 and stack = "ex_frame 2"
        and page = ?epg and ?st1.0 = ?st1 and leafdepth = 0 and fuel = 0 and nxt = "[]"
        and ?nxt1.0 = "[]" and ?st2.0 = ?st1 and env = ex_env and pfuel = 5]
      eante mismatch
    by blast
  then have w3: "entry_walk ex_env ?erel 5 (Suc 0) 0 [ex_frame 2] st0 =
      Some (Inl (Unexpected_leaf 2))"
    by (simp add: efr)
  have w4: "entry_step ex_env ?erel 5 (-1) (ex_frame 2) [] st0 =
     Some (Inr (1, [], \<lparr>reads = 1, messages = [Info_validating_posting_list 2 1]\<rparr>))"
    by code_simp
  have w5: "gin_check_parent_keys_consistency ex_env (ex_rel ex_mixed_tree) 1 5 st0 =
     Some (Inr \<lparr>reads = 3, messages = [Info_validating_posting_tree 2 1]\<rparr>)"
    by code_simp
  show ?thesis
    by (intro conjI) (rule w1 w2 w3 w4 w5)+
qed

section \<open>More fuel does not change a result\<close>

text \<open>
  A walk that ends with some amount of fuel ends with the same result, an error or the
  final state, with every larger amount: the results below, computed with a fixed amount
  of fuel, are the results of the loops of the file.
\<close>

lemma posting_tree_walk_fuel_mono:
  assumes "posting_tree_walk rel n ld stack st = Some r" and "n \<le> m"
  shows "posting_tree_walk rel m ld stack st = Some r"
  using assms
proof (induction n arbitrary: m ld stack st)
  case 0
  then show ?case by (cases stack) simp_all
next
  case (Suc n)
  show ?case
  proof (cases stack)
    case Nil
    with Suc.prems show ?thesis by simp
  next
    case (Cons f nxt)
    from Suc.prems(2) obtain m' where m: "m = Suc m'" "n \<le> m'"
      by (cases m) simp_all
    show ?thesis
    proof (cases "posting_tree_step rel ld f nxt st")
      case (Inl e)
      with Suc.prems(1) Cons m show ?thesis by simp
    next
      case (Inr res)
      obtain ld1 stack1 st1 where res: "res = (ld1, stack1, st1)"
        by (cases res) auto
      with Suc.prems(1) Cons Inr have "posting_tree_walk rel n ld1 stack1 st1 = Some r"
        by simp
      from Suc.IH [OF this m(2)] Cons Inr res m show ?thesis by simp
    qed
  qed
qed

lemma gin_check_posting_tree_fuel_mono:
  assumes "gin_check_posting_tree_parent_keys_consistency rel n root st = Some r" and "n \<le> m"
  shows "gin_check_posting_tree_parent_keys_consistency rel m root st = Some r"
  using assms unfolding gin_check_posting_tree_parent_keys_consistency_def
  by (rule posting_tree_walk_fuel_mono)

lemma validate_leaf_loop_fuel_mono:
  assumes "validate_leaf_loop env rel n page block offsets st = Some r" and "n \<le> m"
  shows "validate_leaf_loop env rel m page block offsets st = Some r"
  using assms
proof (induction offsets arbitrary: st)
  case Nil
  then show ?case by simp
next
  case (Cons i offsets)
  show ?case
  proof (cases "PageGetItemCareful block page i")
    case (Inl e)
    with Cons.prems show ?thesis by simp
  next
    case item: (Inr iid)
    show ?thesis
    proof (cases "t_is_posting_tree (lp_tuple iid)")
      case True
      let ?st = "elog (Info_validating_posting_tree block i) st"
      let ?root = "t_posting_tree (lp_tuple iid)"
      have eq: "validate_leaf_loop env rel k page block (i # offsets) st =
          (case gin_check_posting_tree_parent_keys_consistency rel k ?root ?st of
             None \<Rightarrow> None
           | Some (Inl e) \<Rightarrow> Some (Inl e)
           | Some (Inr st1) \<Rightarrow> validate_leaf_loop env rel k page block offsets st1)" for k
        using item True by (simp add: Let_def)
      from Cons.prems(1) obtain w where
        w: "gin_check_posting_tree_parent_keys_consistency rel n ?root ?st = Some w"
        unfolding eq by (cases "gin_check_posting_tree_parent_keys_consistency rel n ?root ?st")
          simp_all
      have w': "gin_check_posting_tree_parent_keys_consistency rel m ?root ?st = Some w"
        using gin_check_posting_tree_fuel_mono [OF w Cons.prems(2)] .
      show ?thesis
      proof (cases w)
        case (Inl e)
        with Cons.prems(1) w have r: "r = Inl e"
          unfolding eq by simp
        show ?thesis
          unfolding eq w' Inl r by simp
      next
        case (Inr st1)
        with Cons.prems(1) w have "validate_leaf_loop env rel n page block offsets st1 = Some r"
          unfolding eq by simp
        from Cons.IH [OF this Cons.prems(2)] show ?thesis
          unfolding eq w' Inr by simp
      qed
    next
      case False
      let ?st = "elog (Info_validating_posting_list block i) st"
      have eq: "validate_leaf_loop env rel k page block (i # offsets) st =
          (case ginReadTupleWithoutState env (lp_tuple iid) of
             Inl e \<Rightarrow> Some (Inl e)
           | Inr (ipd, nipd) \<Rightarrow>
               (case array_read ipd (nipd - 1) of
                  Inl e \<Rightarrow> Some (Inl e)
                | Inr last_item \<Rightarrow>
                    if \<not> OffsetNumberIsValid env (ip_posid last_item)
                      then Some (Inl (Invalid_heap_pointer block))
                    else validate_leaf_loop env rel k page block offsets ?st))" for k
        using item False by (simp add: Let_def)
      show ?thesis
      proof (cases "ginReadTupleWithoutState env (lp_tuple iid)")
        case (Inl e)
        with Cons.prems(1) show ?thesis unfolding eq by simp
      next
        case (Inr res)
        obtain ipd nipd where res: "res = (ipd, nipd)"
          by (cases res) auto
        show ?thesis
        proof (cases "array_read ipd (nipd - 1)")
          case (Inl e)
          with Cons.prems(1) Inr res show ?thesis unfolding eq by simp
        next
          case last: (Inr last_item)
          show ?thesis
          proof (cases "OffsetNumberIsValid env (ip_posid last_item)")
            case True
            with Cons.prems(1) Inr res last
            have "validate_leaf_loop env rel n page block offsets ?st = Some r"
              unfolding eq by simp
            from Cons.IH [OF this Cons.prems(2)] True Inr res last show ?thesis
              unfolding eq by simp
          next
            case False
            with Cons.prems(1) Inr res last show ?thesis unfolding eq by simp
          qed
        qed
      qed
    qed
  qed
qed

lemma validate_leaf_fuel_mono:
  assumes "validate_leaf env rel n page block st = Some r" and "n \<le> m"
  shows "validate_leaf env rel m page block st = Some r"
  using assms unfolding validate_leaf_def
  by (rule validate_leaf_loop_fuel_mono)


lemma entry_items_loop_fuel_mono:
  assumes "entry_items_loop env rel n page lsn maxoff offsets prev stack nxt st = Some r"
    and "n \<le> m"
  shows "entry_items_loop env rel m page lsn maxoff offsets prev stack nxt st = Some r"
  using assms
proof (induction offsets arbitrary: prev stack nxt st)
  case Nil
  then show ?case by simp
next
  case (Cons i offsets)
  show ?case
  proof (cases "PageGetItemCareful (blkno stack) page i")
    case (Inl e)
    with Cons.prems show ?thesis by simp
  next
    case item: (Inr iid)
    let ?t = "lp_tuple iid"
    show ?thesis
    proof (cases "MAXALIGN env (lp_len iid) \<noteq> MAXALIGN env (t_size ?t)")
      case True
      with Cons.prems item show ?thesis by (simp add: Let_def)
    next
      case sizes: False
      show ?thesis
      proof (cases "check_tuple_order env (blkno stack) i prev ?t")
        case (Inl e)
        with Cons.prems item sizes show ?thesis by (simp add: Let_def)
      next
        case order: (Inr u)
        show ?thesis
        proof (cases "check_parent_key env rel stack i maxoff ?t st")
          case (Inl e)
          with Cons.prems item sizes order show ?thesis by (simp add: Let_def)
        next
          case (Inr res)
          obtain stack1 st1 where res: "res = (stack1, st1)"
            by (cases res) auto
          show ?thesis
          proof (cases "GinPageIsLeaf page")
            case False
            have eq: "entry_items_loop env rel k page lsn maxoff (i # offsets) prev stack nxt st =
                entry_items_loop env rel k page lsn maxoff offsets (Some ?t) stack1
                  (\<lparr>depth = depth stack1 + 1, parenttup = Some ?t, parentblk = blkno stack1,
                    parentlsn = lsn, blkno = ip_blkid (t_tid ?t)\<rparr> # nxt) st1" for k
              using item sizes order Inr res False by (simp add: Let_def)
            from Cons.prems(1) Cons.IH Cons.prems(2) show ?thesis
              unfolding eq by blast
          next
            case True
            have eq: "entry_items_loop env rel k page lsn maxoff (i # offsets) prev stack nxt st =
                (case validate_leaf env rel k page (blkno stack1) st1 of
                   None \<Rightarrow> None
                 | Some (Inl e) \<Rightarrow> Some (Inl e)
                 | Some (Inr st2) \<Rightarrow>
                     entry_items_loop env rel k page lsn maxoff offsets (Some ?t) stack1 nxt st2)"
              for k
              using item sizes order Inr res True by (simp add: Let_def)
            from Cons.prems(1) obtain w where
              w: "validate_leaf env rel n page (blkno stack1) st1 = Some w"
              unfolding eq by (cases "validate_leaf env rel n page (blkno stack1) st1") simp_all
            have w': "validate_leaf env rel m page (blkno stack1) st1 = Some w"
              using validate_leaf_fuel_mono [OF w Cons.prems(2)] .
            show ?thesis
            proof (cases w)
              case (Inl e)
              with Cons.prems(1) w have r: "r = Inl e"
                unfolding eq by simp
              show ?thesis
                unfolding eq w' Inl r by simp
            next
              case (Inr st2)
              with Cons.prems(1) w
              have "entry_items_loop env rel n page lsn maxoff offsets (Some ?t) stack1 nxt st2 =
                  Some r"
                unfolding eq by simp
              from Cons.IH [OF this Cons.prems(2)] show ?thesis
                unfolding eq w' Inr by simp
            qed
          qed
        qed
      qed
    qed
  qed
qed

lemma entry_step_fuel_mono:
  assumes "entry_step env rel n leafdepth stack nxt st = Some r" and "n \<le> m"
  shows "entry_step env rel m leafdepth stack nxt st = Some r"
proof -
  have loop: "entry_items_loop env rel n page lsn maxoff offsets prev stack nxt1 st2 = Some w \<Longrightarrow>
      entry_items_loop env rel m page lsn maxoff offsets prev stack nxt1 st2 = Some w"
    for page lsn maxoff offsets prev nxt1 st2 w
    using entry_items_loop_fuel_mono assms(2) by blast
  show ?thesis
    using assms(1)
    by (auto simp: entry_step_def Let_def dest!: loop
        split: if_splits sum.splits prod.splits option.splits)
qed

lemma entry_walk_fuel_mono:
  assumes "entry_walk env rel pn n ld stack st = Some r" and "pn \<le> pm" and "n \<le> m"
  shows "entry_walk env rel pm m ld stack st = Some r"
  using assms
proof (induction n arbitrary: m ld stack st)
  case 0
  then show ?case by (cases stack) simp_all
next
  case (Suc n)
  show ?case
  proof (cases stack)
    case Nil
    with Suc.prems show ?thesis by simp
  next
    case (Cons f nxt)
    from Suc.prems(3) obtain m' where m: "m = Suc m'" "n \<le> m'"
      by (cases m) simp_all
    from Suc.prems(1) Cons obtain w where w: "entry_step env rel pn ld f nxt st = Some w"
      by (cases "entry_step env rel pn ld f nxt st") simp_all
    have w': "entry_step env rel pm ld f nxt st = Some w"
      using entry_step_fuel_mono [OF w Suc.prems(2)] .
    show ?thesis
    proof (cases w)
      case (Inl e)
      with Suc.prems(1) Cons w have r: "r = Inl e" by simp
      show ?thesis unfolding Cons m r using w' Inl by simp
    next
      case (Inr res)
      obtain ld1 stack1 st1 where res: "res = (ld1, stack1, st1)"
        by (cases res) auto
      with Suc.prems(1) Cons w Inr have "entry_walk env rel pn n ld1 stack1 st1 = Some r"
        by simp
      from Suc.IH [OF this Suc.prems(2) m(2)] show ?thesis
        unfolding Cons m using w' Inr res by simp
    qed
  qed
qed

lemma gin_check_parent_keys_consistency_fuel_mono:
  assumes "gin_check_parent_keys_consistency env rel root n st = Some r" and "n \<le> m"
  shows "gin_check_parent_keys_consistency env rel root m st = Some r"
proof -
  from assms(1) have "entry_walk env rel n n (-1)
      [\<lparr>depth = 0, parenttup = None, parentblk = InvalidBlockNumber,
        parentlsn = InvalidXLogRecPtr, blkno = root\<rparr>] st = Some r"
    by (simp add: gin_check_parent_keys_consistency_def)
  from entry_walk_fuel_mono [OF this assms(2) assms(2)] show ?thesis
    by (simp add: gin_check_parent_keys_consistency_def)
qed

section \<open>Where the walker and its documentation part\<close>

text \<open>
  What the three checks in question do on any input. The order check refuses a pair of
  neighbours exactly when the comparator is not positive on them; the parent check, when
  the parent page still holds the downlink the frame came from, refuses exactly when the
  comparator is not positive on the last key and the parent key; the read of the last
  item pointer is inside the array exactly when the header counts at least one item.
\<close>

lemma check_tuple_order_raises_iff:
  "check_tuple_order env block i (Some prev) idxtuple =
     (if i \<noteq> FirstOffsetNumber \<and>
         ginCompareEntries env (t_attnum idxtuple) (t_key prev) (t_key idxtuple)
           (t_category prev) (t_category idxtuple) \<le> 0
      then Inl (Wrong_tuple_order block i) else Inr ())"
  by (simp add: check_tuple_order_def)

lemma check_parent_key_same_downlink:
  assumes "parenttup stack = Some ptup"
    and "gin_refind_parent rel (parentblk stack) (blkno stack) st = Inr (Some ptup, st1)"
  shows "check_parent_key env rel stack maxoff maxoff idxtuple st =
     (if ginCompareEntries env (t_attnum idxtuple) (t_key idxtuple) (t_key ptup)
           (t_category idxtuple) (t_category ptup) \<le> 0
      then Inl (Inconsistent_records (blkno stack) maxoff) else Inr (stack, st))"
  using assms by (simp add: check_parent_key_def)

lemma uint_zero_or_positive:
  "uint (w :: 'a::len word) = 0 \<or> 0 < uint w"
  using uint_nonnegative [of w] by linarith

lemma ginReadTupleWithoutState_length:
  assumes "ginReadTupleWithoutState env itup = Inr (ipd, nipd)"
  shows "nipd = uint (t_nposting itup) \<and> int (length ipd) = nipd"
  using assms uint_zero_or_positive [of "t_nposting itup"]
  by (auto simp: ginReadTupleWithoutState_def Let_def split: Posting.splits if_splits)

lemma last_item_read_in_bounds_iff:
  assumes "ginReadTupleWithoutState env itup = Inr (ipd, nipd)"
  shows "(t_nposting itup \<noteq> 0 \<longrightarrow> array_read ipd (nipd - 1) = Inr (last ipd))
       \<and> (t_nposting itup = 0 \<longrightarrow> array_read ipd (nipd - 1) = Inl (Undefined_read (-1) 0))"
proof -
  have len: "nipd = uint (t_nposting itup)" "int (length ipd) = nipd"
    using ginReadTupleWithoutState_length [OF assms] by simp_all
  show ?thesis
  proof (cases "t_nposting itup = 0")
    case True
    then show ?thesis using len by (simp add: array_read_def)
  next
    case False
    then have "uint (t_nposting itup) \<noteq> 0"
      by (simp add: uint_0_iff)
    then have pos: "0 < nipd"
      using len uint_zero_or_positive [of "t_nposting itup"] by simp
    then have "ipd \<noteq> []" "nat (nipd - 1) = length ipd - 1"
      using len by auto
    then show ?thesis
      using False len pos by (simp add: array_read_def last_conv_nth)
  qed
qed

text \<open>
  C1. The file says that the tuples of a page are checked to be consistent with the high
  key of the parent, so a last key at or below the key of the downlink is what a sound
  tree has. The walker does the opposite. On \<open>ex_tree 10 7\<close> and \<open>ex_tree 10 10\<close>
  the leaf at block 2, which has a right sibling, ends in the key 7 or 10, not above the
  key 10 of its downlink, and nobody changes the index: the walk raises the error of
  inconsistent records for block 2, offset 1. On \<open>ex_tree 10 12\<close> the leaf ends in the
  key 12, above the key of its downlink, and the walk accepts the index.
\<close>

theorem parent_key_check_rejects_covered_child:
  "cmp_unsigned 1 7 10 0 0 = -1
   \<and> gin_check_parent_keys_consistency ex_env (ex_rel (ex_tree 10 7)) 1 5 st0 =
       Some (Inl (Inconsistent_records 2 1))
   \<and> cmp_unsigned 1 10 10 0 0 = 0
   \<and> gin_check_parent_keys_consistency ex_env (ex_rel (ex_tree 10 10)) 1 5 st0 =
       Some (Inl (Inconsistent_records 2 1))
   \<and> cmp_unsigned 1 12 10 0 0 = 1
   \<and> gin_check_parent_keys_consistency ex_env (ex_rel (ex_tree 10 12)) 1 5 st0 =
       Some (Inr \<lparr>reads = 2, messages = [Info_validating_posting_list 2 1]\<rparr>)"
  by code_simp

text \<open>
  C6. The head of the file promises the check that an internal page has at least one
  downlink. No such check is made: on \<open>ex_empty_root\<close>, whose root is an internal page
  without any tuple, the walk reads the root and accepts the index.
\<close>

theorem empty_internal_root_accepted:
  "\<not> GinPageIsLeaf (ex_entry_page False InvalidBlockNumber [])
   \<and> PageGetMaxOffsetNumber (ex_entry_page False InvalidBlockNumber []) = 0
   \<and> ex_empty_root 1 = Some (ex_entry_page False InvalidBlockNumber [])
   \<and> gin_check_parent_keys_consistency ex_env (ex_rel ex_empty_root) 1 5 st0 =
       Some (Inr \<lparr>reads = 1, messages = []\<rparr>)"
  by code_simp

text \<open>
  C7. The error of a wrong tuple order is raised when the comparator, applied to the key
  of the left neighbour and the key of the tuple, is zero or negative. A leaf with the
  keys 1, 2 in this order, which grow, is refused with the block and the offset 2, and a
  leaf with the keys 2, 1, which fall, is accepted.
\<close>

theorem tuple_order_check_rejects_increasing_keys:
  "cmp_unsigned 1 1 2 0 0 = -1
   \<and> gin_check_parent_keys_consistency ex_env (ex_rel (ex_leaf_root [1, 2])) 1 5 st0 =
       Some (Inl (Wrong_tuple_order 1 2))
   \<and> cmp_unsigned 1 2 1 0 0 = 1
   \<and> gin_check_parent_keys_consistency ex_env (ex_rel (ex_leaf_root [2, 1])) 1 5 st0 =
       Some (Inr \<lparr>reads = 1,
                   messages = [Info_validating_posting_list 1 1, Info_validating_posting_list 1 2,
                               Info_validating_posting_list 1 1, Info_validating_posting_list 1 2]\<rparr>)"
  by code_simp

text \<open>
  C10. For a tuple whose header counts no item the reader returns an array without
  elements and the count 0, and \<open>validate_leaf\<close> then reads the element at index
  \<open>-1\<close>, in front of the array.
\<close>

theorem validate_leaf_reads_in_front_of_empty_array:
  "ginReadTupleWithoutState ex_env (ex_compressed_tuple 0 []) = Inr ([], 0)
   \<and> validate_leaf ex_env (ex_rel ex_empty_list_root) 5
       (ex_entry_page True InvalidBlockNumber [ex_compressed_tuple 0 []]) 1 st0 =
       Some (Inl (Undefined_read (-1) 0))
   \<and> gin_check_parent_keys_consistency ex_env (ex_rel ex_empty_list_root) 1 5 st0 =
       Some (Inl (Undefined_read (-1) 0))"
  by code_simp

end
